theory Spec2Isabelle
  imports Main "HOL-Library.Word" "HOL-Library.AList" "HOL-Library.Sublist" "HOL-Library.Multiset"
begin

unbundle bit_operations_syntax

section \<open>Library functions used by pkg/dns/dns.go\<close>

text \<open>
  Go strings are byte sequences; they are modelled as \<^typ>\<open>string\<close> (a list of 8-bit
  characters). The functions of this section are the parts of the Go standard library that
  dns.go calls, written out for the arguments dns.go passes.
\<close>

subsection \<open>Package strings\<close>

definition TrimRight :: "string \<Rightarrow> string \<Rightarrow> string" where
  \<comment> \<open>strings.TrimRight(s, cutset): drop every trailing byte that occurs in cutset.\<close>
  "TrimRight s cutset = rev (dropWhile (\<lambda>c. c \<in> set cutset) (rev s))"

fun Split :: "string \<Rightarrow> char \<Rightarrow> string list" where
  \<comment> \<open>strings.Split(s, sep) for a one-byte separator (dns.go only splits on ".").
      The result is never empty: Split("", ".") is [""].\<close>
  "Split [] sep = [[]]"
| "Split (c # cs) sep =
     (if c = sep then [] # Split cs sep
      else (case Split cs sep of [] \<Rightarrow> [[c]] | x # xs \<Rightarrow> (c # x) # xs))"

fun Join :: "string list \<Rightarrow> string \<Rightarrow> string" where
  "Join [] sep = []"
| "Join [x] sep = x"
| "Join (x # xs) sep = x @ sep @ Join xs sep"

definition ReplaceByte :: "string \<Rightarrow> char \<Rightarrow> char \<Rightarrow> string" where
  \<comment> \<open>strings.Replace(s, old, new, -1) for one-byte old and new.\<close>
  "ReplaceByte s old new = map (\<lambda>c. if c = old then new else c) s"

definition ToLower :: "string \<Rightarrow> string" where
  \<comment> \<open>strings.ToLower restricted to ASCII: the bytes 'A'..'Z' are lowered and every other
      byte is kept, whereas Go also lowers the non-ASCII letters of a UTF-8 string
      (protocol names are "TCP", "UDP").\<close>
  "ToLower s = map (\<lambda>c. let n = (of_char c :: nat) in
                         if 65 \<le> n \<and> n \<le> 90 then char_of (n + 32) else c) s"

definition reverseArray :: "string list \<Rightarrow> string list" where
  \<comment> \<open>dns.go, reverseArray: swaps arr[i] and arr[len-1-i] for i < len/2, in place,
      and returns the slice. Its callers pass a freshly split slice.\<close>
  "reverseArray arr = rev arr"

subsection \<open>Package fmt and hash/fnv\<close>

definition hexDigit :: "nat \<Rightarrow> char" where
  "hexDigit d = ''0123456789abcdef'' ! d"

fun hexNat :: "nat \<Rightarrow> string" where
  \<comment> \<open>fmt.Sprintf("%x", n) for an unsigned integer: lower case, no leading zeros.\<close>
  "hexNat n = (if n < 16 then [hexDigit n] else hexNat (n div 16) @ [hexDigit (n mod 16)])"

declare hexNat.simps [simp del]

definition hexString :: "string \<Rightarrow> string" where
  \<comment> \<open>fmt.Sprintf("%x", s) for a string: two lower-case hex digits per byte.\<close>
  "hexString s = concat (map (\<lambda>c. [hexDigit (of_char c div 16), hexDigit (of_char c mod 16)]) s)"

fun decNat :: "nat \<Rightarrow> string" where
  "decNat n = (if n < 10 then [hexDigit n] else decNat (n div 10) @ [hexDigit (n mod 10)])"

declare decNat.simps [simp del]

definition decInt :: "int \<Rightarrow> string" where
  "decInt i = (if i < 0 then CHR ''-'' # decNat (nat (- i)) else decNat (nat i))"

definition fnv32a :: "string \<Rightarrow> 32 word" where
  \<comment> \<open>hash/fnv, New32a: offset basis 2166136261; per byte, xor then multiply by the
      prime 16777619, modulo 2^32.\<close>
  "fnv32a s = foldl (\<lambda>h c. (h XOR of_nat (of_char c)) * 16777619) 2166136261 s"

subsection \<open>Package net: ParseIP\<close>

text \<open>
  net.ParseIP(s) returns nil exactly when s is neither a dotted-decimal IPv4 address nor
  an IPv6 address in colon-hexadecimal form. dns.go only tests the result against nil, so
  the model returns the truth value ``the result is not nil''.
\<close>

definition isDigit :: "char \<Rightarrow> bool" where
  "isDigit c = (48 \<le> (of_char c :: nat) \<and> (of_char c :: nat) \<le> 57)"

definition hexVal :: "char \<Rightarrow> nat option" where
  "hexVal c = (let n = (of_char c :: nat) in
     if 48 \<le> n \<and> n \<le> 57 then Some (n - 48)
     else if 97 \<le> n \<and> n \<le> 102 then Some (n - 97 + 10)
     else if 65 \<le> n \<and> n \<le> 70 then Some (n - 65 + 10)
     else None)"

definition big :: nat where
  "big = 16777215"

fun dtoi_loop :: "nat \<Rightarrow> string \<Rightarrow> (nat \<times> string) option" where
  "dtoi_loop n [] = Some (n, [])"
| "dtoi_loop n (c # cs) =
     (if isDigit c
      then (let n' = n * 10 + ((of_char c :: nat) - 48) in
            if n' \<ge> big then None else dtoi_loop n' cs)
      else Some (n, c # cs))"

definition dtoi :: "string \<Rightarrow> (nat \<times> string) option" where
  \<comment> \<open>decimal to integer: the number and the rest of the string; fails on no digit and
      on a number that reaches big.\<close>
  "dtoi s = (case s of [] \<Rightarrow> None | c # cs \<Rightarrow> if isDigit c then dtoi_loop 0 s else None)"

fun xtoi_loop :: "nat \<Rightarrow> string \<Rightarrow> (nat \<times> string) option" where
  "xtoi_loop n [] = Some (n, [])"
| "xtoi_loop n (c # cs) =
     (case hexVal c of
        None \<Rightarrow> Some (n, c # cs)
      | Some d \<Rightarrow> (let n' = n * 16 + d in if n' \<ge> big then None else xtoi_loop n' cs))"

definition xtoi :: "string \<Rightarrow> (nat \<times> string) option" where
  "xtoi s = (case s of [] \<Rightarrow> None
             | c # cs \<Rightarrow> (case hexVal c of None \<Rightarrow> None | Some d \<Rightarrow> xtoi_loop 0 s))"

function parseIPv4_loop :: "nat \<Rightarrow> string \<Rightarrow> bool" where
  \<comment> \<open>the loop of parseIPv4 over the four octets: j is the octet, s the rest of the string\<close>
  "parseIPv4_loop j s =
     (if \<not> j < 4 then s = []
      else if s = [] then False
      else (case (if j > 0 then (if hd s \<noteq> CHR ''.'' then None else Some (tl s))
                  else Some s) of
              None \<Rightarrow> False
            | Some s1 \<Rightarrow>
                (case dtoi s1 of
                   None \<Rightarrow> False
                 | Some (n, rest) \<Rightarrow>
                     if n > 255 then False else parseIPv4_loop (j + 1) rest)))"
  by pat_completeness auto
termination
  by (relation "measure (\<lambda>(j, s). 4 - j)") auto

declare parseIPv4_loop.simps [simp del]

definition parseIPv4 :: "string \<Rightarrow> bool" where
  "parseIPv4 s = parseIPv4_loop 0 s"

definition parseIPv6_finish :: "string \<Rightarrow> nat \<Rightarrow> bool \<Rightarrow> bool" where
  \<comment> \<open>after the loop: the whole string must be used; fewer than 16 bytes need an
      ellipsis to expand, and 16 bytes must not have one.\<close>
  "parseIPv6_finish s j ellipsis =
     (if s \<noteq> [] then False else if j < 16 then ellipsis else \<not> ellipsis)"

function parseIPv6_loop :: "string \<Rightarrow> nat \<Rightarrow> bool \<Rightarrow> bool" where
  "parseIPv6_loop s j ellipsis =
     (if \<not> j < 16 then parseIPv6_finish s j ellipsis
      else (case xtoi s of
              None \<Rightarrow> False
            | Some (n, rest) \<Rightarrow>
                if n > 65535 then False
                else if rest \<noteq> [] \<and> hd rest = CHR ''.''
                then (if \<not> ellipsis \<and> j \<noteq> 12 then False
                      else if j + 4 > 16 then False
                      else if \<not> parseIPv4 s then False
                      else parseIPv6_finish [] (j + 4) ellipsis)
                else if rest = [] then parseIPv6_finish [] (j + 2) ellipsis
                else if hd rest \<noteq> CHR '':'' \<or> length rest = 1 then False
                else if hd (tl rest) = CHR '':''
                then (if ellipsis then False
                      else if tl (tl rest) = [] then parseIPv6_finish [] (j + 2) True
                      else parseIPv6_loop (tl (tl rest)) (j + 2) True)
                else parseIPv6_loop (tl rest) (j + 2) ellipsis))"
  by pat_completeness auto
termination
  by (relation "measure (\<lambda>(s, j, ellipsis). 16 - j)") auto

declare parseIPv6_loop.simps [simp del]

definition parseIPv6 :: "string \<Rightarrow> bool" where
  "parseIPv6 s =
     (if length s \<ge> 2 \<and> s ! 0 = CHR '':'' \<and> s ! 1 = CHR '':''
      then (if drop 2 s = [] then True else parseIPv6_loop (drop 2 s) 0 True)
      else parseIPv6_loop s 0 False)"

fun ParseIP_scan :: "string \<Rightarrow> string \<Rightarrow> bool" where
  \<comment> \<open>ParseIP looks for the first "." or ":" and parses the whole string accordingly.\<close>
  "ParseIP_scan s [] = False"
| "ParseIP_scan s (c # cs) =
     (if c = CHR ''.'' then parseIPv4 s
      else if c = CHR '':'' then parseIPv6 s
      else ParseIP_scan s cs)"

definition ParseIP :: "string \<Rightarrow> bool" where
  "ParseIP s = ParseIP_scan s s"

section \<open>Data model\<close>

text \<open>
  The record value of the SkyDNS library (skymsg.Service). dns.go sets Host, Port, Priority,
  Weight and Ttl; the remaining fields of the struct (Text, Mail, TargetStrip, Group, Key)
  keep their zero values.
\<close>

record skymsg =
  Host :: string
  Port :: int
  Priority :: int
  Weight :: int
  Ttl :: nat

definition Sprintf_v :: "skymsg \<Rightarrow> string" where
  \<comment> \<open>fmt.Sprintf("%v", msg) for a pointer to the struct: the fields in declaration
      order, separated by blanks, inside "&{" and "}"; the unset fields print as the empty
      string, false and 0.\<close>
  "Sprintf_v msg = ''&{'' @ Host msg @ '' '' @ decInt (Port msg) @ '' '' @ decInt (Priority msg)
       @ '' '' @ decInt (Weight msg) @ ''  false '' @ decNat (Ttl msg) @ '' 0  }''"

text \<open>The fields of the API objects that dns.go reads.\<close>

record ObjectMeta =
  Name :: string
  Namespace :: string
  Annotations :: "string \<rightharpoonup> string"

record ServicePort =
  sp_Name :: string
  sp_Protocol :: string
  sp_Port :: int

record Service = ObjectMeta +
  ClusterIP :: string
  Ports :: "ServicePort list"

record EndpointAddress =
  IP :: string
  Hostname :: string

record EndpointPort =
  ep_Name :: string
  ep_Protocol :: string
  ep_Port :: int

record EndpointSubset =
  Addresses :: "EndpointAddress list"
  SubsetPorts :: "EndpointPort list"

record Endpoints = ObjectMeta +
  Subsets :: "EndpointSubset list"

record HostRecord =
  HostName :: string

datatype error =
    KeyNotFound
  | InvalidIP string
  | UnmarshalError

definition serviceSubdomain :: string where
  "serviceSubdomain = ''svc''"

definition podSubdomain :: string where
  "podSubdomain = ''pod''"

section \<open>TreeCache\<close>

text \<open>
  Modelled from the spec: the TreeCache type and its operations (NewTreeCache, setEntry,
  setSubCache, getEntry, deletePath, getValuesForPathWithWildcards) are called by dns.go
  but their source file is not part of the sources at hand. A node has two maps,
  children (label to node) and entries (label to record). The maps are association lists
  that are read with \<^const>\<open>map_of\<close> and written with \<^const>\<open>AList.update\<close>, so that
  the entries of a node can be enumerated; the order of enumeration is not specified.
\<close>

datatype TreeCache =
  TreeCache (ChildNodes: "(string \<times> TreeCache) list") (Entries: "(string \<times> skymsg) list")

definition NewTreeCache :: TreeCache where
  "NewTreeCache = TreeCache [] []"

definition childOrNew :: "TreeCache \<Rightarrow> string \<Rightarrow> TreeCache" where
  \<comment> \<open>``create intermediate child nodes as needed''\<close>
  "childOrNew c p = (case map_of (ChildNodes c) p of None \<Rightarrow> NewTreeCache | Some n \<Rightarrow> n)"

text \<open>
  Modelled from the spec: setEntry(key, value, path...) creates intermediate child nodes as
  needed along path and stores value in the terminal node's entries[key].
\<close>

fun setEntry :: "TreeCache \<Rightarrow> string \<Rightarrow> skymsg \<Rightarrow> string list \<Rightarrow> TreeCache" where
  "setEntry c key val [] = TreeCache (ChildNodes c) (AList.update key val (Entries c))"
| "setEntry c key val (p # ps) =
     TreeCache (AList.update p (setEntry (childOrNew c p) key val ps) (ChildNodes c)) (Entries c)"

text \<open>
  Modelled from the spec: setSubCache(key, sub, path...) creates intermediates along path
  and sets children[key] = sub at the terminal node, replacing any prior child wholesale.
\<close>

fun setSubCache :: "TreeCache \<Rightarrow> string \<Rightarrow> TreeCache \<Rightarrow> string list \<Rightarrow> TreeCache" where
  "setSubCache c key sub [] = TreeCache (AList.update key sub (ChildNodes c)) (Entries c)"
| "setSubCache c key sub (p # ps) =
     TreeCache (AList.update p (setSubCache (childOrNew c p) key sub ps) (ChildNodes c)) (Entries c)"

text \<open>
  Modelled from the spec: the walk of a path through children, shared by getEntry and
  deletePath; None when a label has no child.
\<close>

fun getSubCache :: "TreeCache \<Rightarrow> string list \<Rightarrow> TreeCache option" where
  "getSubCache c [] = Some c"
| "getSubCache c (p # ps) =
     (case map_of (ChildNodes c) p of None \<Rightarrow> None | Some n \<Rightarrow> getSubCache n ps)"

text \<open>
  Modelled from the spec: getEntry(key, path...) walks path through children and returns
  entries[key] if present, else a miss.
\<close>

definition getEntry :: "TreeCache \<Rightarrow> string \<Rightarrow> string list \<Rightarrow> skymsg option" where
  "getEntry c key path =
     (case getSubCache c path of None \<Rightarrow> None | Some n \<Rightarrow> map_of (Entries n) key)"

text \<open>
  Modelled from the spec: deletePath(path...) walks path through children and removes the
  final child, both its subtree and any entry at the same key on the parent's entries map;
  it is a no-op if the path does not exist.
\<close>

fun deletePath :: "TreeCache \<Rightarrow> string list \<Rightarrow> TreeCache" where
  "deletePath c [] = c"
| "deletePath c [p] = TreeCache (AList.delete p (ChildNodes c)) (AList.delete p (Entries c))"
| "deletePath c (p # ps) =
     (case map_of (ChildNodes c) p of
        None \<Rightarrow> c
      | Some n \<Rightarrow> TreeCache (AList.update p (deletePath n ps) (ChildNodes c)) (Entries c))"

text \<open>
  Modelled from the spec: getValuesForPathWithWildcards(path...) collects the records under
  the nodes matched by path. A label "*" matches any child at that level, a literal label
  matches exactly. At the last label, a terminal entry of that name is collected; otherwise
  an exact child of that name joins the frontier, and under "*" the node itself stays in
  the frontier. Once the path is consumed, all entries of the frontier nodes are collected.
  (The tests of dns\_test.go fix this reading: a portal service with a named port answers
  its FQDN, and "*." before its FQDN, with exactly one record.)
\<close>

definition childrenMatching :: "string \<Rightarrow> TreeCache \<Rightarrow> TreeCache list" where
  "childrenMatching l node =
     (if l = ''*'' then map snd (ChildNodes node)
      else (case map_of (ChildNodes node) l of None \<Rightarrow> [] | Some c \<Rightarrow> [c]))"

definition allEntries :: "TreeCache list \<Rightarrow> skymsg list" where
  "allEntries nodes = concat (map (\<lambda>n. map snd (Entries n)) nodes)"

definition lastEntry :: "string \<Rightarrow> TreeCache \<Rightarrow> skymsg list" where
  "lastEntry l node = (case map_of (Entries node) l of None \<Rightarrow> [] | Some v \<Rightarrow> [v])"

definition lastChild :: "string \<Rightarrow> TreeCache \<Rightarrow> TreeCache list" where
  "lastChild l node =
     (case map_of (Entries node) l of
        Some v \<Rightarrow> []
      | None \<Rightarrow> (case map_of (ChildNodes node) l of None \<Rightarrow> [] | Some c \<Rightarrow> [c]))"

fun getValuesFrom :: "TreeCache list \<Rightarrow> string list \<Rightarrow> skymsg list" where
  "getValuesFrom nodes [] = allEntries nodes"
| "getValuesFrom nodes [l] =
     (if l = ''*'' then allEntries nodes
      else concat (map (lastEntry l) nodes) @ allEntries (concat (map (lastChild l) nodes)))"
| "getValuesFrom nodes (l # ls) = getValuesFrom (concat (map (childrenMatching l) nodes)) ls"

definition getValuesForPathWithWildcards :: "TreeCache \<Rightarrow> string list \<Rightarrow> skymsg list" where
  "getValuesForPathWithWildcards c path = getValuesFrom [c] path"

section \<open>pkg/dns/dns.go\<close>

subsection \<open>Collaborators outside dns.go\<close>

text \<open>
  Modelled from the spec: kapi.IsServiceIPSet is not part of the sources at hand. ``A
  service lacking a cluster IP is treated as headless (cluster IP literal "None" is the
  canonical marker, but any unset/unassigned IP also triggers this path).''
\<close>

definition IsServiceIPSet :: "Service \<Rightarrow> bool" where
  "IsServiceIPSet service = (ClusterIP service \<noteq> ''None'' \<and> ClusterIP service \<noteq> [])"

text \<open>
  Modelled from the spec: kcache.MetaNamespaceKeyFunc and the two object stores are not part
  of the sources at hand. The stores are looked up by the key ``namespace/name''; a store is
  a map from keys to objects.
\<close>

definition MetaNamespaceKeyFunc :: "'a ObjectMeta_scheme \<Rightarrow> string" where
  "MetaNamespaceKeyFunc obj = Namespace obj @ ''/'' @ Name obj"

text \<open>
  Modelled from the spec: validation.IsDNS1123Label is not part of the sources at hand; the
  spec asks that ``the hostname is a valid DNS label'': at most 63 bytes, lower-case
  letters, digits and "-", beginning and ending with a letter or a digit. The function
  returns the list of violations, which dns.go tests for emptiness.
\<close>

definition isLowerAlnum :: "char \<Rightarrow> bool" where
  "isLowerAlnum c = (let n = (of_char c :: nat) in (97 \<le> n \<and> n \<le> 122) \<or> (48 \<le> n \<and> n \<le> 57))"

definition IsDNS1123Label :: "string \<Rightarrow> string list" where
  "IsDNS1123Label v =
     (if length v > 63 then [''must be no more than 63 characters''] else []) @
     (if v \<noteq> [] \<and> isLowerAlnum (hd v) \<and> isLowerAlnum (last v)
         \<and> list_all (\<lambda>c. isLowerAlnum c \<or> c = CHR ''-'') v
      then [] else [''must match the regex [a-z0-9]([-a-z0-9]*[a-z0-9])?''])"

definition PodHostnamesAnnotation :: string where
  \<comment> \<open>the key of the pod-hostnames annotation, a constant of package endpoints\<close>
  "PodHostnamesAnnotation = ''endpoints.beta.kubernetes.io/hostnames-map''"

text \<open>
  json.Unmarshal is a parameter of the model: \<open>unm s\<close> is the map decoded from the
  bytes s, or None when the decoder reports an error.
\<close>

type_synonym unmarshal = "string \<Rightarrow> (string \<rightharpoonup> HostRecord) option"

subsection \<open>The KubeDNS state\<close>

record KubeDNS =
  domain :: string
  endpointsStore :: "string \<rightharpoonup> Endpoints"
  servicesStore :: "string \<rightharpoonup> Service"
  cache :: TreeCache
  domainPath :: "string list"

definition NewKubeDNS :: "string \<Rightarrow> KubeDNS" where
  "NewKubeDNS d =
     \<lparr>domain = d, endpointsStore = Map.empty, servicesStore = Map.empty,
      cache = NewTreeCache,
      domainPath = reverseArray (Split (TrimRight d ''.'') (CHR ''.''))\<rparr>"

subsection \<open>Record synthesis\<close>

definition getSkyMsg :: "string \<Rightarrow> int \<Rightarrow> skymsg \<times> string" where
  \<comment> \<open>the record, and the hex rendering of the hex rendering of its FNV-1a hash\<close>
  "getSkyMsg ip port =
     (let msg = \<lparr>Host = ip, Port = port, Priority = 10, Weight = 10, Ttl = 30\<rparr>;
          s = Sprintf_v msg;
          hash = hexNat (unat (fnv32a s))
      in (msg, hexString hash))"

definition generateSRVRecordValue :: "KubeDNS \<Rightarrow> Service \<Rightarrow> int \<Rightarrow> string list \<Rightarrow> skymsg" where
  "generateSRVRecordValue kd svc portNumber labels =
     (let host = Join [Name svc, Namespace svc, serviceSubdomain, domain kd] ''.'';
          host' = foldl (\<lambda>h cNameLabel. cNameLabel @ ''.'' @ h) host labels
      in fst (getSkyMsg host' portNumber))"

definition portalPort :: "KubeDNS \<Rightarrow> Service \<Rightarrow> string \<Rightarrow> TreeCache \<Rightarrow> ServicePort \<Rightarrow> TreeCache" where
  \<comment> \<open>the body of the loop over service.Spec.Ports in newPortalService\<close>
  "portalPort kd service recordLabel subCache port =
     (if sp_Name port \<noteq> [] \<and> sp_Protocol port \<noteq> []
      then setEntry subCache recordLabel (generateSRVRecordValue kd service (sp_Port port) [])
             [''_'' @ ToLower (sp_Protocol port), ''_'' @ sp_Name port]
      else subCache)"

definition portalSubCache :: "KubeDNS \<Rightarrow> Service \<Rightarrow> TreeCache" where
  \<comment> \<open>newPortalService up to the installation of the subcache\<close>
  "portalSubCache kd service =
     (let (recordValue, recordLabel) = getSkyMsg (ClusterIP service) 0;
          subCache = setEntry NewTreeCache recordLabel recordValue []
      in foldl (portalPort kd service recordLabel) subCache (Ports service))"

definition newPortalService :: "KubeDNS \<Rightarrow> Service \<Rightarrow> KubeDNS" where
  "newPortalService kd service =
     (let subCache = portalSubCache kd service;
          subCachePath = domainPath kd @ [serviceSubdomain, Namespace service]
      in kd\<lparr>cache := setSubCache (cache kd) (Name service) subCache subCachePath\<rparr>)"

definition getHostname :: "EndpointAddress \<Rightarrow> (string \<rightharpoonup> HostRecord) \<Rightarrow> string option" where
  \<comment> \<open>Some h for (h, true); None for ("", false)\<close>
  "getHostname address podHostnames =
     (if length (Hostname address) > 0 then Some (Hostname address)
      else (case podHostnames (IP address) of
              Some hostRecord \<Rightarrow>
                if length (IsDNS1123Label (HostName hostRecord)) = 0
                then Some (HostName hostRecord) else None
            | None \<Rightarrow> None))"

definition getPodHostnamesFromAnnotation ::
  "unmarshal \<Rightarrow> (string \<rightharpoonup> string) \<Rightarrow> error + (string \<rightharpoonup> HostRecord)" where
  "getPodHostnamesFromAnnotation unm annotations =
     (case annotations PodHostnamesAnnotation of
        Some serializedHostnames \<Rightarrow>
          if length serializedHostnames > 0
          then (case unm serializedHostnames of
                  None \<Rightarrow> Inl UnmarshalError
                | Some hostnames \<Rightarrow> Inr hostnames)
          else Inr Map.empty
      | None \<Rightarrow> Inr Map.empty)"

definition endpointName :: "(string \<rightharpoonup> HostRecord) \<Rightarrow> EndpointAddress \<Rightarrow> string" where
  \<comment> \<open>the label of an address: the hash label of getSkyMsg unless getHostname finds one\<close>
  "endpointName podHostnames address =
     (case getHostname address podHostnames of
        Some hostLabel \<Rightarrow> hostLabel
      | None \<Rightarrow> snd (getSkyMsg (IP address) 0))"

definition headlessPort ::
  "KubeDNS \<Rightarrow> Service \<Rightarrow> string \<Rightarrow> TreeCache \<Rightarrow> EndpointPort \<Rightarrow> TreeCache" where
  \<comment> \<open>the body of the loop over e.Subsets[idx].Ports\<close>
  "headlessPort kd svc epName subCache endpointPort =
     (if ep_Name endpointPort \<noteq> [] \<and> ep_Protocol endpointPort \<noteq> []
      then setEntry subCache epName
             (generateSRVRecordValue kd svc (ep_Port endpointPort) [epName])
             [''_'' @ ToLower (ep_Protocol endpointPort), ''_'' @ ep_Name endpointPort]
      else subCache)"

definition headlessAddress ::
  "KubeDNS \<Rightarrow> Service \<Rightarrow> (string \<rightharpoonup> HostRecord) \<Rightarrow> EndpointPort list \<Rightarrow> TreeCache
     \<Rightarrow> EndpointAddress \<Rightarrow> TreeCache" where
  \<comment> \<open>the body of the loop over e.Subsets[idx].Addresses\<close>
  "headlessAddress kd svc podHostnames ports subCache address =
     (let recordValue = fst (getSkyMsg (IP address) 0);
          epName = endpointName podHostnames address;
          subCache' = setEntry subCache epName recordValue []
      in foldl (headlessPort kd svc epName) subCache' ports)"

definition headlessSubset ::
  "KubeDNS \<Rightarrow> Service \<Rightarrow> (string \<rightharpoonup> HostRecord) \<Rightarrow> TreeCache \<Rightarrow> EndpointSubset \<Rightarrow> TreeCache" where
  \<comment> \<open>the body of the loop over e.Subsets\<close>
  "headlessSubset kd svc podHostnames subCache es =
     foldl (headlessAddress kd svc podHostnames (SubsetPorts es)) subCache (Addresses es)"

definition headlessSubCache ::
  "KubeDNS \<Rightarrow> Service \<Rightarrow> (string \<rightharpoonup> HostRecord) \<Rightarrow> Endpoints \<Rightarrow> TreeCache" where
  "headlessSubCache kd svc podHostnames e =
     foldl (headlessSubset kd svc podHostnames) NewTreeCache (Subsets e)"

definition generateRecordsForHeadlessService ::
  "unmarshal \<Rightarrow> KubeDNS \<Rightarrow> Endpoints \<Rightarrow> Service \<Rightarrow> KubeDNS \<times> error option" where
  \<comment> \<open>the state after the call and the error returned (None for nil)\<close>
  "generateRecordsForHeadlessService unm kd e svc =
     (case getPodHostnamesFromAnnotation unm (Annotations e) of
        Inl err \<Rightarrow> (kd, Some err)
      | Inr podHostnames \<Rightarrow>
          (let subCache = headlessSubCache kd svc podHostnames e;
               subCachePath = domainPath kd @ [serviceSubdomain, Namespace svc]
           in (kd\<lparr>cache := setSubCache (cache kd) (Name svc) subCache subCachePath\<rparr>, None)))"

subsection \<open>Event handlers\<close>

definition newHeadlessService :: "unmarshal \<Rightarrow> KubeDNS \<Rightarrow> Service \<Rightarrow> KubeDNS \<times> error option" where
  "newHeadlessService unm kd service =
     (case endpointsStore kd (MetaNamespaceKeyFunc service) of
        None \<Rightarrow> (kd, None)
      | Some e \<Rightarrow> generateRecordsForHeadlessService unm kd e service)"

definition newService :: "unmarshal \<Rightarrow> KubeDNS \<Rightarrow> Service \<Rightarrow> KubeDNS" where
  \<comment> \<open>the error of newHeadlessService is dropped\<close>
  "newService unm kd service =
     (if \<not> IsServiceIPSet service then fst (newHeadlessService unm kd service)
      else newPortalService kd service)"

definition removeService :: "KubeDNS \<Rightarrow> Service \<Rightarrow> KubeDNS" where
  "removeService kd s =
     (let subCachePath = domainPath kd @ [serviceSubdomain, Namespace s, Name s]
      in kd\<lparr>cache := deletePath (cache kd) subCachePath\<rparr>)"

definition updateService :: "unmarshal \<Rightarrow> KubeDNS \<Rightarrow> Service \<Rightarrow> Service \<Rightarrow> KubeDNS" where
  "updateService unm kd oldObj newObj = newService unm kd newObj"

definition getServiceFromEndpoints :: "KubeDNS \<Rightarrow> Endpoints \<Rightarrow> Service option" where
  "getServiceFromEndpoints kd e = servicesStore kd (MetaNamespaceKeyFunc e)"

definition addDNSUsingEndpoints :: "unmarshal \<Rightarrow> KubeDNS \<Rightarrow> Endpoints \<Rightarrow> KubeDNS \<times> error option" where
  "addDNSUsingEndpoints unm kd e =
     (case getServiceFromEndpoints kd e of
        None \<Rightarrow> (kd, None)
      | Some svc \<Rightarrow>
          if IsServiceIPSet svc then (kd, None)
          else generateRecordsForHeadlessService unm kd e svc)"

definition handleEndpointAdd :: "unmarshal \<Rightarrow> KubeDNS \<Rightarrow> Endpoints \<Rightarrow> KubeDNS" where
  "handleEndpointAdd unm kd e = fst (addDNSUsingEndpoints unm kd e)"

subsection \<open>The resolver\<close>

definition isPodRecord :: "KubeDNS \<Rightarrow> string list \<Rightarrow> bool" where
  "isPodRecord kd path =
     (if length path \<noteq> length (domainPath kd) + 3 then False
      else if path ! length (domainPath kd) \<noteq> ''pod'' then False
      else if list_ex (\<lambda>segment. segment = ''*'') path then False
      else True)"

definition getPodIP :: "string list \<Rightarrow> error + string" where
  \<comment> \<open>path is never empty here: isPodRecord has checked its length\<close>
  "getPodIP path =
     (let ipStr = path ! (length path - 1);
          ip = ReplaceByte ipStr (CHR ''-'') (CHR ''.'')
      in if ParseIP ip then Inr ip else Inl (InvalidIP ip))"

definition Records :: "KubeDNS \<Rightarrow> string \<Rightarrow> bool \<Rightarrow> error + skymsg list" where
  "Records kd name exact =
     (let trimmed = TrimRight name ''.'';
          segments = Split trimmed (CHR ''.'');
          path = reverseArray segments
      in if isPodRecord kd path
         then (case getPodIP path of
                 Inr ip \<Rightarrow> Inr [fst (getSkyMsg ip 0)]
               | Inl err \<Rightarrow> Inl err)
         else if exact
         then (let key = path ! (length path - 1) in
               if key = [] then Inr []
               else (case getEntry (cache kd) key (take (length path - 1) path) of
                       Some record \<Rightarrow> Inr [record]
                     | None \<Rightarrow> Inl KeyNotFound))
         else (let records = getValuesForPathWithWildcards (cache kd) path;
                   retval = records
               in if length retval = 0 then Inl KeyNotFound else Inr retval))"

section \<open>Notions used to state the properties\<close>

definition queryPath :: "string \<Rightarrow> string list" where
  \<comment> \<open>the path that Records computes from a query name\<close>
  "queryPath name = reverseArray (Split (TrimRight name ''.'') (CHR ''.''))"

definition dashesToDots :: "string \<Rightarrow> string" where
  "dashesToDots l = ReplaceByte l (CHR ''-'') (CHR ''.'')"

definition noJSON :: unmarshal where
  \<comment> \<open>a decoder that reports an error on every input\<close>
  "noJSON s = None"

definition clusterLocal :: KubeDNS where
  \<comment> \<open>the state of the tests of dns\_test.go: domain "cluster.local.", empty stores and cache\<close>
  "clusterLocal = NewKubeDNS ''cluster.local.''"

definition testHeadless :: Service where
  \<comment> \<open>newHeadlessService of dns\_test.go\<close>
  "testHeadless =
     \<lparr>Name = ''testservice'', Namespace = ''default'', Annotations = Map.empty,
      ClusterIP = ''None'', Ports = [\<lparr>sp_Name = [], sp_Protocol = [], sp_Port = 0\<rparr>]\<rparr>"

definition oldRecord :: skymsg where
  "oldRecord = \<lparr>Host = ''10.9.9.9'', Port = 0, Priority = 10, Weight = 10, Ttl = 30\<rparr>"

definition servicePath :: "KubeDNS \<Rightarrow> string \<Rightarrow> string \<Rightarrow> string list" where
  \<comment> \<open>D ++ ["svc", ns, n]\<close>
  "servicePath kd ns n = domainPath kd @ [serviceSubdomain, ns, n]"

definition withOldRecord :: KubeDNS where
  \<comment> \<open>a state in which the service default/testservice already has a record "old"\<close>
  "withOldRecord =
     clusterLocal\<lparr>cache := setEntry NewTreeCache ''old'' oldRecord
                                (servicePath clusterLocal ''default'' ''testservice'')\<rparr>"

definition emptyAnnotation :: Endpoints where
  \<comment> \<open>endpoints of default/testservice whose pod-hostnames annotation is the empty string\<close>
  "emptyAnnotation =
     \<lparr>Name = ''testservice'', Namespace = ''default'',
      Annotations = [PodHostnamesAnnotation \<mapsto> []], Subsets = []\<rparr>"

definition brokenAnnotation :: Endpoints where
  \<comment> \<open>endpoints of default/testservice whose pod-hostnames annotation is "{"\<close>
  "brokenAnnotation =
     \<lparr>Name = ''testservice'', Namespace = ''default'',
      Annotations = [PodHostnamesAnnotation \<mapsto> ''{''], Subsets = []\<rparr>"

definition podPathRecord :: TreeCache where
  \<comment> \<open>a cache that stores a record at the path of the pod name x-y.default.pod.cluster.local\<close>
  "podPathRecord =
     setEntry NewTreeCache ''x-y'' oldRecord [''local'', ''cluster'', ''pod'', ''default'']"

definition otherHeadless :: Service where
  \<comment> \<open>a second headless service, default/other\<close>
  "otherHeadless =
     \<lparr>Name = ''other'', Namespace = ''default'', Annotations = Map.empty,
      ClusterIP = ''None'', Ports = [\<lparr>sp_Name = [], sp_Protocol = [], sp_Port = 0\<rparr>]\<rparr>"

definition otherEndpoints :: Endpoints where
  \<comment> \<open>the endpoints of default/other: one subset, port 80, address 10.0.0.1\<close>
  "otherEndpoints =
     \<lparr>Name = ''other'', Namespace = ''default'', Annotations = Map.empty,
      Subsets = [\<lparr>Addresses = [\<lparr>IP = ''10.0.0.1'', Hostname = []\<rparr>],
                  SubsetPorts = [\<lparr>ep_Name = [], ep_Protocol = ''TCP'', ep_Port = 80\<rparr>]\<rparr>]\<rparr>"

definition withOther :: KubeDNS where
  \<comment> \<open>the state withOldRecord whose stores know default/other and its endpoints\<close>
  "withOther =
     withOldRecord\<lparr>endpointsStore := [''default/other'' \<mapsto> otherEndpoints],
                    servicesStore := [''default/other'' \<mapsto> otherHeadless]\<rparr>"

definition entriesAt :: "TreeCache \<Rightarrow> string list \<Rightarrow> (string \<times> skymsg) list" where
  \<comment> \<open>the entries map of the node at a path; empty when the path has no node\<close>
  "entriesAt c path = (case getSubCache c path of None \<Rightarrow> [] | Some n \<Rightarrow> Entries n)"

definition allAddresses :: "Endpoints \<Rightarrow> EndpointAddress list" where
  \<comment> \<open>every address of every subset, in the order of the loops of
      generateRecordsForHeadlessService\<close>
  "allAddresses e = concat (map Addresses (Subsets e))"

definition srvPath :: "string \<Rightarrow> string \<Rightarrow> string list" where
  \<comment> \<open>the path of the SRV entries of a port, relative to the subcache of the service\<close>
  "srvPath proto name = [''_'' @ ToLower proto, ''_'' @ name]"

definition serviceFQDN :: "KubeDNS \<Rightarrow> string \<Rightarrow> string \<Rightarrow> string" where
  \<comment> \<open>n.ns.svc.<domain>, the name built by getServiceFQDN of dns\_test.go and by
      generateSRVRecordValue\<close>
  "serviceFQDN kd ns n = n @ ''.'' @ ns @ ''.'' @ serviceSubdomain @ ''.'' @ domain kd"

definition testPortal :: Service where
  \<comment> \<open>newService(testNamespace, testService, "1.2.3.4", "http1", 80) of dns\_test.go\<close>
  "testPortal =
     \<lparr>Name = ''testservice'', Namespace = ''default'', Annotations = Map.empty,
      ClusterIP = ''1.2.3.4'',
      Ports = [\<lparr>sp_Name = ''http1'', sp_Protocol = ''TCP'', sp_Port = 80\<rparr>]\<rparr>"

definition namedPort :: "ServicePort \<Rightarrow> bool" where
  \<comment> \<open>the test of newPortalService for a port that gets an SRV entry\<close>
  "namedPort p = (sp_Name p \<noteq> [] \<and> sp_Protocol p \<noteq> [])"

definition aRecord :: "string \<Rightarrow> skymsg" where
  \<comment> \<open>the record of getSkyMsg(ip, 0)\<close>
  "aRecord ip = \<lparr>Host = ip, Port = 0, Priority = 10, Weight = 10, Ttl = 30\<rparr>"

definition hashLabel :: "string \<Rightarrow> string" where
  \<comment> \<open>the label of getSkyMsg(ip, 0)\<close>
  "hashLabel ip = snd (getSkyMsg ip 0)"

definition dashEncode :: "string \<Rightarrow> string" where
  \<comment> \<open>the dash-encoding of an IP: 10.0.0.1 becomes 10-0-0-1\<close>
  "dashEncode ip = ReplaceByte ip (CHR ''.'') (CHR ''-'')"

definition noHostnames :: "string \<rightharpoonup> HostRecord" where
  \<comment> \<open>the pod hostnames of an endpoints object without annotation\<close>
  "noHostnames = Map.empty"

definition frontier :: "string list \<Rightarrow> TreeCache list \<Rightarrow> TreeCache list" where
  \<comment> \<open>the nodes that the traversal has reached after the labels of a path that are not
      the last one\<close>
  "frontier path nodes = foldl (\<lambda>ns l. concat (map (childrenMatching l) ns)) nodes path"

definition contrib :: "string \<Rightarrow> TreeCache \<Rightarrow> skymsg list" where
  \<comment> \<open>what a node of the frontier yields at the last label l, when l is not "*"\<close>
  "contrib l g = lastEntry l g @ allEntries (lastChild l g)"

definition nodeAt :: "TreeCache \<Rightarrow> string list \<Rightarrow> TreeCache" where
  \<comment> \<open>the node at a path, or a new node when the path has none\<close>
  "nodeAt c path = (case getSubCache c path of None \<Rightarrow> NewTreeCache | Some g \<Rightarrow> g)"

definition installed :: "TreeCache \<Rightarrow> string \<Rightarrow> TreeCache \<Rightarrow> string list \<Rightarrow> TreeCache" where
  \<comment> \<open>the node at path after setSubCache(key, sub, path...)\<close>
  "installed c key sub path =
     TreeCache (AList.update key sub (ChildNodes (nodeAt c path))) (Entries (nodeAt c path))"

definition matches :: "string list \<Rightarrow> string list \<Rightarrow> bool" where
  \<comment> \<open>a query path matches a path label by label: each label is "*" or equal\<close>
  "matches pat path = list_all2 (\<lambda>q p. q = ''*'' \<or> q = p) pat path"

definition sameIP :: Endpoints where
  \<comment> \<open>endpoints of default/other in which two subsets (ports 80 and 8080) carry the
      same address 10.0.0.1\<close>
  "sameIP =
     \<lparr>Name = ''other'', Namespace = ''default'', Annotations = Map.empty,
      Subsets = [\<lparr>Addresses = [\<lparr>IP = ''10.0.0.1'', Hostname = []\<rparr>],
                  SubsetPorts = [\<lparr>ep_Name = [], ep_Protocol = ''TCP'', ep_Port = 80\<rparr>]\<rparr>,
                 \<lparr>Addresses = [\<lparr>IP = ''10.0.0.1'', Hostname = []\<rparr>],
                  SubsetPorts = [\<lparr>ep_Name = [], ep_Protocol = ''TCP'', ep_Port = 8080\<rparr>]\<rparr>]\<rparr>"

definition twoAddresses :: Endpoints where
  \<comment> \<open>endpoints of default/other with the addresses 10.0.0.1 and 1.2.3.4 on port 80\<close>
  "twoAddresses =
     \<lparr>Name = ''other'', Namespace = ''default'', Annotations = Map.empty,
      Subsets = [\<lparr>Addresses = [\<lparr>IP = ''10.0.0.1'', Hostname = []\<rparr>,
                               \<lparr>IP = ''1.2.3.4'', Hostname = []\<rparr>],
                  SubsetPorts = [\<lparr>ep_Name = [], ep_Protocol = ''TCP'', ep_Port = 80\<rparr>]\<rparr>]\<rparr>"

definition plainLabel :: "string \<Rightarrow> bool" where
  \<comment> \<open>a label without a dot that is not the wildcard\<close>
  "plainLabel l = (CHR ''.'' \<notin> set l \<and> l \<noteq> ''*'')"

definition kubePortal :: Service where
  \<comment> \<open>a portal service of the same name as testPortal in the namespace "kube"\<close>
  "kubePortal =
     \<lparr>Name = ''testservice'', Namespace = ''kube'', Annotations = Map.empty,
      ClusterIP = ''5.6.7.8'',
      Ports = [\<lparr>sp_Name = [], sp_Protocol = ''TCP'', sp_Port = 80\<rparr>]\<rparr>"

definition twoNamespaces :: KubeDNS where
  \<comment> \<open>the state after adding testPortal and then kubePortal to the empty cache\<close>
  "twoNamespaces = newService noJSON (newService noJSON clusterLocal testPortal) kubePortal"

definition renamedPortal :: Service where
  \<comment> \<open>testPortal after its port name was changed from http1 to http2, as in
      TestNamedSinglePortService of dns\_test.go\<close>
  "renamedPortal =
     \<lparr>Name = ''testservice'', Namespace = ''default'', Annotations = Map.empty,
      ClusterIP = ''1.2.3.4'',
      Ports = [\<lparr>sp_Name = ''http2'', sp_Protocol = ''TCP'', sp_Port = 80\<rparr>]\<rparr>"

definition afterAdd :: KubeDNS where
  \<comment> \<open>the state after adding testPortal to the empty cache\<close>
  "afterAdd = newService noJSON clusterLocal testPortal"

section \<open>Evaluation and basic facts\<close>

lemmas ParseIP_eval = ParseIP_def parseIPv4_def parseIPv4_loop.simps parseIPv6_def
  parseIPv6_loop.simps parseIPv6_finish_def xtoi_def dtoi_def hexVal_def isDigit_def big_def

lemma Split_not_Nil [simp]: "Split s sep \<noteq> []"
  by (induction s) (auto split: list.splits)

lemma queryPath_not_Nil [simp]: "queryPath name \<noteq> []"
  by (simp add: queryPath_def reverseArray_def)

lemma fst_getSkyMsg [simp]:
  "fst (getSkyMsg ip port) = \<lparr>Host = ip, Port = port, Priority = 10, Weight = 10, Ttl = 30\<rparr>"
  by (simp add: getSkyMsg_def Let_def)

lemma Records_unfold:
  "Records kd name exact =
     (if isPodRecord kd (queryPath name)
      then (case getPodIP (queryPath name) of
              Inr ip \<Rightarrow> Inr [\<lparr>Host = ip, Port = 0, Priority = 10, Weight = 10, Ttl = 30\<rparr>]
            | Inl err \<Rightarrow> Inl err)
      else if exact
      then (if last (queryPath name) = [] then Inr []
            else (case getEntry (cache kd) (last (queryPath name)) (butlast (queryPath name)) of
                    Some record \<Rightarrow> Inr [record] | None \<Rightarrow> Inl KeyNotFound))
      else (if getValuesForPathWithWildcards (cache kd) (queryPath name) = []
            then Inl KeyNotFound
            else Inr (getValuesForPathWithWildcards (cache kd) (queryPath name))))"
  by (simp add: Records_def queryPath_def [symmetric] Let_def
        last_conv_nth butlast_conv_take split: sum.splits)

lemma getPodIP_unfold:
  "path \<noteq> [] \<Longrightarrow> getPodIP path =
     (if ParseIP (dashesToDots (last path)) then Inr (dashesToDots (last path))
      else Inl (InvalidIP (dashesToDots (last path))))"
  by (simp add: getPodIP_def dashesToDots_def Let_def last_conv_nth)

lemma Records_pod_shape:
  assumes "isPodRecord kd (queryPath name)"
  shows "Records kd name exact =
           (if ParseIP (dashesToDots (last (queryPath name)))
            then Inr [\<lparr>Host = dashesToDots (last (queryPath name)), Port = 0,
                       Priority = 10, Weight = 10, Ttl = 30\<rparr>]
            else Inl (InvalidIP (dashesToDots (last (queryPath name)))))"
  using assms by (simp add: Records_unfold getPodIP_unfold)

lemma isPodRecord_cache [simp]: "isPodRecord (kd\<lparr>cache := c\<rparr>) path = isPodRecord kd path"
  by (simp add: isPodRecord_def)

lemma domainPath_clusterLocal: "domainPath clusterLocal = [''local'', ''cluster'']"
  by (simp add: clusterLocal_def NewKubeDNS_def TrimRight_def reverseArray_def)

lemma cache_clusterLocal: "cache clusterLocal = NewTreeCache"
  by (simp add: clusterLocal_def NewKubeDNS_def)


lemma isPodRecord_pod_shape:
  "isPodRecord kd path =
     (length path = length (domainPath kd) + 3 \<and> path ! length (domainPath kd) = ''pod''
      \<and> ''*'' \<notin> set path)"
  by (auto simp: isPodRecord_def list_ex_iff)

lemmas cache_eval = getEntry_def childOrNew_def NewTreeCache_def
  getValuesForPathWithWildcards_def childrenMatching_def allEntries_def lastEntry_def
  lastChild_def

lemma servicePath_clusterLocal:
  "servicePath clusterLocal ns n = [''local'', ''cluster'', ''svc'', ns, n]"
  by (simp add: servicePath_def domainPath_clusterLocal serviceSubdomain_def)


section \<open>TreeCache: basic facts\<close>

lemma childOrNew_update [simp]:
  "childOrNew (TreeCache (AList.update p n cn) en) p = n"
  by (simp add: childOrNew_def update_conv')

lemma getSubCache_New: "getSubCache NewTreeCache p = (if p = [] then Some NewTreeCache else None)"
  by (cases p) (simp_all add: NewTreeCache_def)

lemma getEntry_New [simp]: "getEntry NewTreeCache key path = None"
  by (cases path) (simp_all add: getEntry_def NewTreeCache_def)

lemma getEntry_Nil [simp]: "getEntry c key [] = map_of (Entries c) key"
  by (simp add: getEntry_def)

lemma getEntry_Cons:
  "getEntry c key (p # ps) =
     (case map_of (ChildNodes c) p of None \<Rightarrow> None | Some n \<Rightarrow> getEntry n key ps)"
  by (simp add: getEntry_def split: option.splits)

lemma getEntry_childOrNew:
  "getEntry c key (p # ps) = getEntry (childOrNew c p) key ps"
  by (simp add: getEntry_Cons childOrNew_def split: option.splits)

lemma setSubCache_idem:
  "setSubCache (setSubCache c key sub p) key sub p = setSubCache c key sub p"
  by (induction p arbitrary: c) simp_all

lemma getSubCache_setSubCache:
  "getSubCache (setSubCache c key sub p) (p @ [key]) = Some sub"
  by (induction p arbitrary: c) (simp_all add: update_conv')

lemma getEntry_setSubCache_same:
  "getEntry (setSubCache c key sub p) k (p @ key # q) = getEntry sub k q"
  by (induction p arbitrary: c) (simp_all add: getEntry_Cons update_conv')

lemma getEntry_setSubCache_frame:
  "\<not> prefix (p @ [key]) (path @ [k]) \<Longrightarrow>
     getEntry (setSubCache c key sub p) k path = getEntry c k path"
proof (induction p arbitrary: c path)
  case Nil
  then show ?case
    by (cases path) (auto simp: getEntry_Cons update_conv')
next
  case (Cons a as)
  show ?case
  proof (cases path)
    case Nil
    then show ?thesis by simp
  next
    case (Cons q qs)
    show ?thesis
    proof (cases "q = a")
      case True
      with Cons.prems Cons have "\<not> prefix (as @ [key]) (qs @ [k])" by simp
      then have "getEntry (setSubCache (childOrNew c a) key sub as) k qs
                   = getEntry (childOrNew c a) k qs"
        by (rule Cons.IH)
      with True Cons show ?thesis
        by (simp add: getEntry_Cons [of "TreeCache _ _"] update_conv' getEntry_childOrNew)
    next
      case False
      with Cons show ?thesis
        by (simp add: getEntry_Cons update_conv')
    qed
  qed
qed

lemma getEntry_deletePath_frame:
  "\<not> prefix p (path @ [k]) \<Longrightarrow> getEntry (deletePath c p) k path = getEntry c k path"
proof (induction c p arbitrary: path rule: deletePath.induct)
  case (1 c)
  then show ?case by simp
next
  case (2 c p)
  then show ?case
    by (cases path) (auto simp: getEntry_Cons delete_conv')
next
  case (3 c p v va)
  show ?case
  proof (cases "map_of (ChildNodes c) p")
    case None
    then show ?thesis by simp
  next
    case (Some n)
    show ?thesis
    proof (cases path)
      case Nil
      with Some show ?thesis by simp
    next
      case (Cons q qs)
      show ?thesis
      proof (cases "q = p")
        case True
        with "3.prems" Cons have "\<not> prefix (v # va) (qs @ [k])" by simp
        with "3.IH" Some have "getEntry (deletePath n (v # va)) k qs = getEntry n k qs"
          by simp
        with True Cons Some show ?thesis
          by (simp add: getEntry_Cons update_conv')
      next
        case False
        with Cons Some show ?thesis
          by (simp add: getEntry_Cons update_conv')
      qed
    qed
  qed
qed

section \<open>Synthesis does not read the cache\<close>

lemma generateSRVRecordValue_cache [simp]:
  "generateSRVRecordValue (kd\<lparr>cache := c\<rparr>) svc port labels = generateSRVRecordValue kd svc port labels"
  by (simp add: generateSRVRecordValue_def)

lemma portalPort_cache [simp]: "portalPort (kd\<lparr>cache := c\<rparr>) = portalPort kd"
  by (intro ext) (simp add: portalPort_def)

lemma portalSubCache_cache [simp]:
  "portalSubCache (kd\<lparr>cache := c\<rparr>) service = portalSubCache kd service"
  by (simp add: portalSubCache_def)

lemma headlessPort_cache [simp]: "headlessPort (kd\<lparr>cache := c\<rparr>) = headlessPort kd"
  by (intro ext) (simp add: headlessPort_def)

lemma headlessAddress_cache [simp]: "headlessAddress (kd\<lparr>cache := c\<rparr>) = headlessAddress kd"
  by (intro ext) (simp add: headlessAddress_def)

lemma headlessSubset_cache [simp]: "headlessSubset (kd\<lparr>cache := c\<rparr>) = headlessSubset kd"
  by (intro ext) (simp add: headlessSubset_def)

lemma headlessSubCache_cache [simp]:
  "headlessSubCache (kd\<lparr>cache := c\<rparr>) svc ph e = headlessSubCache kd svc ph e"
  by (simp add: headlessSubCache_def)

lemma newPortalService_idem:
  "newPortalService (newPortalService kd s) s = newPortalService kd s"
  by (simp add: newPortalService_def Let_def setSubCache_idem)

lemma generateRecords_idem:
  "fst (generateRecordsForHeadlessService unm
          (fst (generateRecordsForHeadlessService unm kd e s)) e s)
     = fst (generateRecordsForHeadlessService unm kd e s)"
  by (simp add: generateRecordsForHeadlessService_def Let_def setSubCache_idem split: sum.splits)

lemma generateRecords_stores [simp]:
  "endpointsStore (fst (generateRecordsForHeadlessService unm kd e s)) = endpointsStore kd"
  "servicesStore (fst (generateRecordsForHeadlessService unm kd e s)) = servicesStore kd"
  "domainPath (fst (generateRecordsForHeadlessService unm kd e s)) = domainPath kd"
  "domain (fst (generateRecordsForHeadlessService unm kd e s)) = domain kd"
  by (simp_all add: generateRecordsForHeadlessService_def Let_def split: sum.splits)


lemma generateRecords_frame:
  assumes "\<not> prefix (servicePath kd (Namespace s) (Name s)) (path @ [k])"
  shows "getEntry (cache (fst (generateRecordsForHeadlessService unm kd e s))) k path
           = getEntry (cache kd) k path"
proof -
  from assms have "\<not> prefix ((domainPath kd @ [serviceSubdomain, Namespace s]) @ [Name s]) (path @ [k])"
    by (simp add: servicePath_def)
  then show ?thesis
    by (simp add: generateRecordsForHeadlessService_def Let_def getEntry_setSubCache_frame
          split: sum.splits)
qed

lemma newService_frame:
  assumes "\<not> prefix (servicePath kd (Namespace s) (Name s)) (path @ [k])"
  shows "getEntry (cache (newService unm kd s)) k path = getEntry (cache kd) k path"
proof -
  from assms have "\<not> prefix ((domainPath kd @ [serviceSubdomain, Namespace s]) @ [Name s]) (path @ [k])"
    by (simp add: servicePath_def)
  then have "getEntry (cache (newPortalService kd s)) k path = getEntry (cache kd) k path"
    by (simp add: newPortalService_def Let_def getEntry_setSubCache_frame)
  with generateRecords_frame [OF assms] show ?thesis
    by (simp add: newService_def newHeadlessService_def split: option.splits)
qed


section \<open>entriesAt\<close>

lemma entriesAt_Nil [simp]: "entriesAt c [] = Entries c"
  by (simp add: entriesAt_def)

lemma entriesAt_New [simp]: "entriesAt NewTreeCache q = []"
  by (cases q) (simp_all add: entriesAt_def NewTreeCache_def)

lemma entriesAt_Cons: "entriesAt c (p # ps) = entriesAt (childOrNew c p) ps"
proof (cases "map_of (ChildNodes c) p")
  case None
  then have "entriesAt c (p # ps) = []" "childOrNew c p = NewTreeCache"
    by (simp_all add: entriesAt_def childOrNew_def)
  then show ?thesis by simp
next
  case (Some n)
  then show ?thesis by (simp add: entriesAt_def childOrNew_def)
qed

lemma getEntry_entriesAt: "getEntry c key path = map_of (entriesAt c path) key"
  by (simp add: getEntry_def entriesAt_def split: option.splits)

lemma childOrNew_update_other [simp]:
  "q \<noteq> p \<Longrightarrow> childOrNew (TreeCache (AList.update p n cn) en) q = childOrNew (TreeCache cn en') q"
  by (simp add: childOrNew_def update_conv')

lemma childOrNew_Entries_irrelevant: "childOrNew (TreeCache cn en) q = childOrNew (TreeCache cn en') q"
  by (simp add: childOrNew_def)

lemma entriesAt_setEntry:
  "entriesAt (setEntry c key val p) q =
     (if q = p then AList.update key val (entriesAt c p) else entriesAt c q)"
proof (induction p arbitrary: c q)
  case Nil
  show ?case
  proof (cases q)
    case Nil
    then show ?thesis by simp
  next
    case (Cons a as)
    then show ?thesis
      by (simp add: entriesAt_Cons childOrNew_def)
  qed
next
  case (Cons a as)
  show ?case
  proof (cases q)
    case Nil
    then show ?thesis by simp
  next
    case (Cons b bs)
    show ?thesis
    proof (cases "b = a")
      case True
      with Cons Cons.IH [of "childOrNew c a" bs] show ?thesis
        by (simp add: entriesAt_Cons)
    next
      case False
      with Cons show ?thesis
        by (simp add: entriesAt_Cons childOrNew_def update_conv')
    qed
  qed
qed

lemma entriesAt_setSubCache:
  "entriesAt (setSubCache c key sub p) (p @ key # q) = entriesAt sub q"
  by (induction p arbitrary: c) (simp_all add: entriesAt_Cons)


section \<open>Labels of concrete records\<close>

lemmas label_eval = hashLabel_def getSkyMsg_def Sprintf_v_def decInt_def decNat.simps hexNat.simps
  hexString_def hexDigit_def fnv32a_def

lemma hashLabel_10_0_0_1: "hashLabel ''10.0.0.1'' = ''3234633364383235''"
  by (simp add: label_eval Let_def)

lemma hashLabel_1_2_3_4: "hashLabel ''1.2.3.4'' = ''6263626163303737''"
  by (simp add: label_eval Let_def)

section \<open>Folds of updates\<close>

lemma foldl_update_same_key:
  "foldl (\<lambda>al p. AList.update L (g p) al) al ms =
     (if ms = [] then al else AList.update L (g (last ms)) al)"
  by (induction ms rule: rev_induct) simp_all

lemma map_of_foldl_update:
  assumes "a \<in> set xs"
    and "\<forall>a' \<in> set xs. lab a' = lab a \<longrightarrow> val a' = val a"
  shows "map_of (foldl (\<lambda>al x. AList.update (lab x) (val x) al) al xs) (lab a) = Some (val a)"
  using assms
proof (induction xs rule: rev_induct)
  case Nil
  then show ?case by simp
next
  case (snoc x xs)
  let ?f = "\<lambda>al x. AList.update (lab x) (val x) al"
  have step: "map_of (foldl ?f al (xs @ [x])) (lab a)
                = (if lab x = lab a then Some (val x) else map_of (foldl ?f al xs) (lab a))"
    by (simp add: update_conv')
  show ?case
  proof (cases "lab x = lab a")
    case True
    from snoc.prems(2) have "lab x = lab a \<longrightarrow> val x = val a" by simp
    with True have "val x = val a" by blast
    with True step show ?thesis by simp
  next
    case False
    with snoc.prems(1) have "a \<in> set xs" by auto
    moreover from snoc.prems(2) have "\<forall>a' \<in> set xs. lab a' = lab a \<longrightarrow> val a' = val a"
      by simp
    ultimately have "map_of (foldl ?f al xs) (lab a) = Some (val a)"
      by (rule snoc.IH)
    with False step show ?thesis by simp
  qed
qed

lemma update_fresh: "k \<notin> fst ` set al \<Longrightarrow> AList.update k v al = al @ [(k, v)]"
  by (induction al) auto

lemma foldl_update_distinct:
  "distinct (map lab xs) \<Longrightarrow> set (map lab xs) \<inter> fst ` set al = {} \<Longrightarrow>
   foldl (\<lambda>al x. AList.update (lab x) (val x) al) al xs = al @ map (\<lambda>x. (lab x, val x)) xs"
proof (induction xs rule: rev_induct)
  case Nil
  then show ?case by simp
next
  case (snoc x xs)
  then have "lab x \<notin> fst ` set (al @ map (\<lambda>x. (lab x, val x)) xs)"
    by (auto simp: image_iff)
  then have "AList.update (lab x) (val x) (al @ map (\<lambda>x. (lab x, val x)) xs)
               = (al @ map (\<lambda>x. (lab x, val x)) xs) @ [(lab x, val x)]"
    by (rule update_fresh)
  with snoc show ?case by auto
qed

section \<open>The subcache of a portal service\<close>

lemma getSkyMsg_aRecord: "getSkyMsg ip 0 = (aRecord ip, hashLabel ip)"
  by (simp add: aRecord_def hashLabel_def prod_eq_iff)

lemma generateSRVRecordValue_Nil:
  "generateSRVRecordValue kd s port [] =
     \<lparr>Host = serviceFQDN kd (Namespace s) (Name s), Port = port, Priority = 10, Weight = 10,
      Ttl = 30\<rparr>"
  by (simp add: generateSRVRecordValue_def serviceFQDN_def)

lemma generateSRVRecordValue_label:
  "generateSRVRecordValue kd s port [l] =
     \<lparr>Host = l @ ''.'' @ serviceFQDN kd (Namespace s) (Name s), Port = port, Priority = 10,
      Weight = 10, Ttl = 30\<rparr>"
  by (simp add: generateSRVRecordValue_def serviceFQDN_def)

lemma portalPort_entriesAt:
  "entriesAt (portalPort kd s L c p) q =
     (if namedPort p \<and> srvPath (sp_Protocol p) (sp_Name p) = q
      then AList.update L (generateSRVRecordValue kd s (sp_Port p) []) (entriesAt c q)
      else entriesAt c q)"
  by (auto simp: portalPort_def namedPort_def srvPath_def entriesAt_setEntry
        simp del: setEntry.simps)

lemma portalPorts_entriesAt:
  "entriesAt (foldl (portalPort kd s L) c ps) q =
     foldl (\<lambda>al p. AList.update L (generateSRVRecordValue kd s (sp_Port p) []) al) (entriesAt c q)
       (filter (\<lambda>p. namedPort p \<and> srvPath (sp_Protocol p) (sp_Name p) = q) ps)"
  by (induction ps arbitrary: c) (simp_all add: portalPort_entriesAt)

lemma portalSubCache_unfold:
  "portalSubCache kd s =
     foldl (portalPort kd s (hashLabel (ClusterIP s)))
       (setEntry NewTreeCache (hashLabel (ClusterIP s)) (aRecord (ClusterIP s)) []) (Ports s)"
  by (simp add: portalSubCache_def getSkyMsg_aRecord)

lemma portalSubCache_A:
  "Entries (portalSubCache kd s) = [(hashLabel (ClusterIP s), aRecord (ClusterIP s))]"
proof -
  have "entriesAt (portalSubCache kd s) [] = [(hashLabel (ClusterIP s), aRecord (ClusterIP s))]"
    unfolding portalSubCache_unfold portalPorts_entriesAt
    by (simp add: srvPath_def NewTreeCache_def)
  then show ?thesis by simp
qed

lemma portalSubCache_SRV:
  assumes "p \<in> set (Ports s)" and "namedPort p"
    and "\<forall>p' \<in> set (Ports s). namedPort p' \<and> srvPath (sp_Protocol p') (sp_Name p')
             = srvPath (sp_Protocol p) (sp_Name p) \<longrightarrow> sp_Port p' = sp_Port p"
  shows "entriesAt (portalSubCache kd s) (srvPath (sp_Protocol p) (sp_Name p))
           = [(hashLabel (ClusterIP s),
               \<lparr>Host = serviceFQDN kd (Namespace s) (Name s), Port = sp_Port p,
                Priority = 10, Weight = 10, Ttl = 30\<rparr>)]"
proof -
  let ?q = "srvPath (sp_Protocol p) (sp_Name p)"
  let ?ms = "filter (\<lambda>p'. namedPort p' \<and> srvPath (sp_Protocol p') (sp_Name p') = ?q) (Ports s)"
  from assms have ne: "?ms \<noteq> []"
    by (auto simp: filter_empty_conv)
  then have "last ?ms \<in> set ?ms" by (rule last_in_set)
  then have "last ?ms \<in> set (Ports s)"
    and "namedPort (last ?ms) \<and> srvPath (sp_Protocol (last ?ms)) (sp_Name (last ?ms)) = ?q"
    by simp_all
  with assms(3) have "sp_Port (last ?ms) = sp_Port p" by blast
  moreover have "entriesAt (setEntry NewTreeCache (hashLabel (ClusterIP s)) (aRecord (ClusterIP s)) []) ?q = []"
    by (simp add: entriesAt_setEntry srvPath_def del: setEntry.simps)
  ultimately show ?thesis
    unfolding portalSubCache_unfold portalPorts_entriesAt foldl_update_same_key
    using ne by (simp add: generateSRVRecordValue_Nil)
qed

lemma newPortalService_installed:
  "getSubCache (cache (newPortalService kd s)) (servicePath kd (Namespace s) (Name s))
     = Some (portalSubCache kd s)"
  using getSubCache_setSubCache [of "cache kd" "Name s" "portalSubCache kd s"
          "domainPath kd @ [serviceSubdomain, Namespace s]"]
  by (simp add: newPortalService_def servicePath_def Let_def)


section \<open>The subcache of a headless service\<close>

lemma headlessPort_Entries:
  "Entries (headlessPort kd svc nm c ep) = Entries c"
  by (simp add: headlessPort_def)

lemma headlessPorts_Entries:
  "Entries (foldl (headlessPort kd svc nm) c eps) = Entries c"
  by (induction eps arbitrary: c) (simp_all add: headlessPort_Entries)

lemma headlessAddress_Entries:
  "Entries (headlessAddress kd svc ph ports c a)
     = AList.update (endpointName ph a) (aRecord (IP a)) (Entries c)"
  by (simp add: headlessAddress_def Let_def headlessPorts_Entries aRecord_def)

lemma headlessSubset_Entries:
  "Entries (headlessSubset kd svc ph c es)
     = foldl (\<lambda>al a. AList.update (endpointName ph a) (aRecord (IP a)) al) (Entries c)
         (Addresses es)"
proof -
  have "Entries (foldl (headlessAddress kd svc ph ports) c as)
          = foldl (\<lambda>al a. AList.update (endpointName ph a) (aRecord (IP a)) al) (Entries c) as"
    for ports as
    by (induction as arbitrary: c) (simp_all add: headlessAddress_Entries)
  then show ?thesis by (simp add: headlessSubset_def)
qed

lemma headlessSubsets_Entries:
  "Entries (foldl (headlessSubset kd svc ph) c ess)
     = foldl (\<lambda>al a. AList.update (endpointName ph a) (aRecord (IP a)) al) (Entries c)
         (concat (map Addresses ess))"
  by (induction ess arbitrary: c) (simp_all add: headlessSubset_Entries)

lemma headlessSubCache_Entries:
  "Entries (headlessSubCache kd svc ph e)
     = foldl (\<lambda>al a. AList.update (endpointName ph a) (aRecord (IP a)) al) []
         (allAddresses e)"
  by (simp add: headlessSubCache_def headlessSubsets_Entries allAddresses_def NewTreeCache_def)

lemma generateRecords_ok:
  "getPodHostnamesFromAnnotation unm (Annotations e) = Inr ph \<Longrightarrow>
   generateRecordsForHeadlessService unm kd e svc =
     (kd\<lparr>cache := setSubCache (cache kd) (Name svc) (headlessSubCache kd svc ph e)
                      (domainPath kd @ [serviceSubdomain, Namespace svc])\<rparr>, None)"
  by (simp add: generateRecordsForHeadlessService_def Let_def)

lemma getEntry_installed:
  "getEntry (setSubCache c n sub (D @ [svc, ns])) k (D @ [svc, ns, n]) = map_of (Entries sub) k"
  using getEntry_setSubCache_same [of c n sub "D @ [svc, ns]" k "[]"] by simp


section \<open>Query names and paths\<close>

lemma TrimRight_append:
  "TrimRight d cs \<noteq> [] \<Longrightarrow> TrimRight (x @ d) cs = x @ TrimRight d cs"
  by (auto simp: TrimRight_def dropWhile_append dropWhile_eq_Nil_conv)

lemma Split_label:
  "sep \<notin> set l \<Longrightarrow> Split (l @ sep # rest) sep = l # Split rest sep"
  by (induction l) auto

lemma queryPath_label:
  assumes "CHR ''.'' \<notin> set l" and "TrimRight rest ''.'' \<noteq> []"
  shows "queryPath (l @ ''.'' @ rest) = queryPath rest @ [l]"
    and "TrimRight (l @ ''.'' @ rest) ''.'' \<noteq> []"
proof -
  from assms(2) have t: "TrimRight (l @ ''.'' @ rest) ''.'' = l @ ''.'' @ TrimRight rest ''.''"
    using TrimRight_append [of rest "''.''" "l @ ''.''"] by simp
  then show "TrimRight (l @ ''.'' @ rest) ''.'' \<noteq> []" by simp
  have "Split (l @ ''.'' @ TrimRight rest ''.'') (CHR ''.'')
          = l # Split (TrimRight rest ''.'') (CHR ''.'')"
    using Split_label [OF assms(1)] by simp
  then show "queryPath (l @ ''.'' @ rest) = queryPath rest @ [l]"
    unfolding queryPath_def t by (simp add: reverseArray_def)
qed

section \<open>The wildcard traversal\<close>

lemma frontier_Nil [simp]: "frontier [] nodes = nodes"
  by (simp add: frontier_def)

lemma frontier_Cons [simp]:
  "frontier (l # ls) nodes = frontier ls (concat (map (childrenMatching l) nodes))"
  by (simp add: frontier_def)

lemma frontier_no_nodes [simp]: "frontier p [] = []"
  by (induction p) simp_all

lemma frontier_append_nodes: "frontier p (xs @ ys) = frontier p xs @ frontier p ys"
  by (induction p arbitrary: xs ys) simp_all

lemma frontier_append_path: "frontier (p @ q) nodes = frontier q (frontier p nodes)"
  by (simp add: frontier_def)

lemma getValuesFrom_frontier:
  "getValuesFrom nodes (p @ [l]) = getValuesFrom (frontier p nodes) [l]"
proof (induction p arbitrary: nodes)
  case Nil
  then show ?case by simp
next
  case (Cons a p)
  then show ?case by (cases p) simp_all
qed

lemma frontier_literal:
  "''*'' \<notin> set p \<Longrightarrow>
     frontier p [c] = (case getSubCache c p of None \<Rightarrow> [] | Some g \<Rightarrow> [g])"
  by (induction p arbitrary: c) (auto simp: childrenMatching_def split: option.splits)

lemma final_label:
  "l \<noteq> ''*'' \<Longrightarrow> getValuesFrom [g] [l] = contrib l g"
  by (simp add: contrib_def)

lemma final_star: "getValuesFrom nodes [''*''] = allEntries nodes"
  by simp

lemma allEntries_single [simp]: "allEntries [g] = map snd (Entries g)"
  by (simp add: allEntries_def)

lemma allEntries_Nil [simp]: "allEntries [] = []"
  by (simp add: allEntries_def)

lemma allEntries_append [simp]: "allEntries (xs @ ys) = allEntries xs @ allEntries ys"
  by (simp add: allEntries_def)

section \<open>The node that setSubCache writes\<close>

lemma nodeAt_Nil [simp]: "nodeAt c [] = c"
  by (simp add: nodeAt_def)

lemma nodeAt_New [simp]: "nodeAt NewTreeCache p = NewTreeCache"
  by (simp add: nodeAt_def getSubCache_New)

lemma nodeAt_Cons: "nodeAt c (a # p) = nodeAt (childOrNew c a) p"
  by (cases "map_of (ChildNodes c) a") (simp_all add: nodeAt_def childOrNew_def getSubCache_New)

lemma installed_Cons: "installed c n sub (a # p) = installed (childOrNew c a) n sub p"
  by (simp add: installed_def nodeAt_Cons)

lemma getSubCache_setSubCache_parent:
  "getSubCache (setSubCache c n sub p) p = Some (installed c n sub p)"
proof (induction p arbitrary: c)
  case Nil
  then show ?case by (simp add: installed_def)
next
  case (Cons a p)
  then show ?case by (simp add: update_conv' installed_Cons)
qed

lemma Entries_nodeAt: "map_of (Entries (nodeAt c p)) k = getEntry c k p"
  by (simp add: nodeAt_def getEntry_def NewTreeCache_def split: option.splits)

lemma contrib_installed:
  assumes "getEntry c n p = None"
  shows "contrib n (installed c n sub p) = map snd (Entries sub)"
  using assms
  by (simp add: contrib_def installed_def lastEntry_def lastChild_def Entries_nodeAt update_conv')

lemma getValues_installed_literal:
  assumes "''*'' \<notin> set (p @ [n])" and "getEntry c n p = None"
  shows "getValuesForPathWithWildcards (setSubCache c n sub p) (p @ [n]) = map snd (Entries sub)"
proof -
  from assms(1) have "frontier p [setSubCache c n sub p] = [installed c n sub p]"
    by (simp add: frontier_literal getSubCache_setSubCache_parent)
  moreover from assms(1) have "n \<noteq> ''*''" by auto
  ultimately show ?thesis
    using assms(2)
    by (simp add: getValuesForPathWithWildcards_def getValuesFrom_frontier final_label
          contrib_installed del: getValuesFrom.simps setSubCache.simps)
qed


section \<open>Queries for a service\<close>

lemma queryPath_serviceFQDN:
  assumes "domainPath kd = queryPath (domain kd)" and "TrimRight (domain kd) ''.'' \<noteq> []"
    and "CHR ''.'' \<notin> set n" and "CHR ''.'' \<notin> set ns"
  shows "queryPath (serviceFQDN kd ns n) = domainPath kd @ [''svc'', ns, n]"
proof -
  have s: "CHR ''.'' \<notin> set ''svc''" by simp
  note a = queryPath_label [OF s assms(2)]
  note b = queryPath_label [OF assms(4) a(2)]
  note c = queryPath_label [OF assms(3) b(2)]
  from a(1) b(1) c(1) assms(1) show ?thesis
    by (simp add: serviceFQDN_def serviceSubdomain_def)
qed

lemma not_pod_svc:
  "length D = length (domainPath kd) \<Longrightarrow> l \<noteq> ''pod'' \<Longrightarrow> \<not> isPodRecord kd (D @ l # rest)"
  by (simp add: isPodRecord_def nth_append)

lemma Records_wildcard:
  assumes "queryPath name = domainPath kd @ l # rest" and "l \<noteq> ''pod''"
  shows "Records kd name False =
           (if getValuesForPathWithWildcards (cache kd) (queryPath name) = [] then Inl KeyNotFound
            else Inr (getValuesForPathWithWildcards (cache kd) (queryPath name)))"
proof -
  have "\<not> isPodRecord kd (domainPath kd @ l # rest)"
    using assms(2) by (simp add: not_pod_svc)
  with assms(1) show ?thesis by (simp add: Records_unfold)
qed

lemma headlessSubCache_distinct:
  assumes "distinct (map (endpointName ph) (allAddresses e))"
  shows "map snd (Entries (headlessSubCache kd svc ph e))
           = map (\<lambda>a. aRecord (IP a)) (allAddresses e)"
proof -
  have "foldl (\<lambda>al x. AList.update (endpointName ph x) (aRecord (IP x)) al) [] (allAddresses e)
          = [] @ map (\<lambda>x. (endpointName ph x, aRecord (IP x))) (allAddresses e)"
    using assms by (intro foldl_update_distinct) simp_all
  then show ?thesis
    by (simp add: headlessSubCache_Entries comp_def)
qed

lemma generateRecords_Records:
  assumes ok: "getPodHostnamesFromAnnotation unm (Annotations e) = Inr ph"
    and dom: "domainPath kd = queryPath (domain kd)" "TrimRight (domain kd) ''.'' \<noteq> []"
    and lab: "plainLabel (Namespace svc)" "plainLabel (Name svc)" "''*'' \<notin> set (domainPath kd)"
    and pre: "getEntry (cache kd) (Name svc) (domainPath kd @ [''svc'', Namespace svc]) = None"
  shows "Records (fst (generateRecordsForHeadlessService unm kd e svc))
           (serviceFQDN kd (Namespace svc) (Name svc)) False
         = (if Entries (headlessSubCache kd svc ph e) = [] then Inl KeyNotFound
            else Inr (map snd (Entries (headlessSubCache kd svc ph e))))"
proof -
  let ?kd' = "fst (generateRecordsForHeadlessService unm kd e svc)"
  let ?p = "domainPath kd @ [''svc'', Namespace svc]"
  have q: "queryPath (serviceFQDN kd (Namespace svc) (Name svc)) = ?p @ [Name svc]"
    using queryPath_serviceFQDN [OF dom] lab by (simp add: plainLabel_def)
  have c: "cache ?kd' = setSubCache (cache kd) (Name svc) (headlessSubCache kd svc ph e) ?p"
    by (simp add: generateRecords_ok [OF ok] serviceSubdomain_def)
  have d: "domainPath ?kd' = domainPath kd" by simp
  have s: "''*'' \<notin> set (?p @ [Name svc])"
    using lab by (auto simp: plainLabel_def)
  have v: "getValuesForPathWithWildcards (cache ?kd') (?p @ [Name svc])
             = map snd (Entries (headlessSubCache kd svc ph e))"
    unfolding c using s pre by (rule getValues_installed_literal)
  have "queryPath (serviceFQDN kd (Namespace svc) (Name svc))
          = domainPath ?kd' @ ''svc'' # [Namespace svc, Name svc]"
    by (simp add: q d)
  note r = Records_wildcard [OF this]
  have v': "getValuesForPathWithWildcards (cache ?kd')
              (queryPath (serviceFQDN kd (Namespace svc) (Name svc)))
             = map snd (Entries (headlessSubCache kd svc ph e))"
    unfolding q by (rule v)
  from r show ?thesis unfolding v' by simp
qed


lemma clusterLocal_wellformed:
  "domain clusterLocal = ''cluster.local.''"
  "domainPath clusterLocal = queryPath (domain clusterLocal)"
  "TrimRight (domain clusterLocal) ''.'' \<noteq> []"
  "''*'' \<notin> set (domainPath clusterLocal)"
  by (simp_all add: clusterLocal_def NewKubeDNS_def queryPath_def TrimRight_def reverseArray_def)

lemma no_annotation:
  "Annotations e = Map.empty \<Longrightarrow> getPodHostnamesFromAnnotation unm (Annotations e) = Inr noHostnames"
  by (simp add: getPodHostnamesFromAnnotation_def noHostnames_def)

lemma endpointName_plain:
  "endpointName noHostnames \<lparr>IP = ip, Hostname = []\<rparr> = hashLabel ip"
  by (simp add: endpointName_def getHostname_def noHostnames_def hashLabel_def)


section \<open>The frontier after setSubCache\<close>

lemma map_of_split:
  "map_of al k = Some v \<Longrightarrow>
     \<exists>pre post. al = pre @ (k, v) # post \<and> k \<notin> fst ` set pre"
proof (induction al)
  case Nil
  then show ?case by simp
next
  case (Cons x al)
  show ?case
  proof (cases "fst x = k")
    case True
    with Cons.prems have "x # al = [] @ (k, v) # al \<and> k \<notin> fst ` set []"
      by (cases x) simp
    then show ?thesis by blast
  next
    case False
    with Cons obtain pre post where "al = pre @ (k, v) # post" "k \<notin> fst ` set pre"
      by (cases x) auto
    with False have "x # al = (x # pre) @ (k, v) # post \<and> k \<notin> fst ` set (x # pre)"
      by auto
    then show ?thesis by blast
  qed
qed

lemma update_split:
  "k \<notin> fst ` set pre \<Longrightarrow> AList.update k v' (pre @ (k, v) # post) = pre @ (k, v') # post"
  by (induction pre) auto

lemma frontier_mono_nodes:
  "set xs \<subseteq> set ys \<Longrightarrow> set (frontier p xs) \<subseteq> set (frontier p ys)"
proof (induction p arbitrary: xs ys)
  case Nil
  then show ?case by simp
next
  case (Cons l p)
  from Cons.prems have "set (concat (map (childrenMatching l) xs))
                          \<subseteq> set (concat (map (childrenMatching l) ys))"
    by auto
  then show ?case by (simp add: Cons.IH)
qed

lemma map_of_in_snd: "map_of al k = Some v \<Longrightarrow> v \<in> snd ` set al"
  by (force dest: map_of_SomeD)

lemma childOrNew_New [simp]: "childOrNew NewTreeCache a = NewTreeCache"
  by (simp add: childOrNew_def NewTreeCache_def)

lemma childrenMatching_star:
  "set (childrenMatching l g) \<subseteq> set (childrenMatching ''*'' g)"
  by (auto simp: childrenMatching_def map_of_in_snd split: option.splits)

lemma frontier_mono_pattern:
  "list_all2 (\<lambda>q q'. q' = ''*'' \<or> q = q') pat pat' \<Longrightarrow>
     set (frontier pat nodes) \<subseteq> set (frontier pat' nodes)"
proof (induction pat pat' arbitrary: nodes rule: list_all2_induct)
  case Nil
  then show ?case by simp
next
  case (Cons q pat q' pat')
  have "set (concat (map (childrenMatching q) nodes))
          \<subseteq> set (concat (map (childrenMatching q') nodes))"
    using Cons.hyps(1) childrenMatching_star [of q] by auto
  then have "set (frontier pat (concat (map (childrenMatching q) nodes)))
               \<subseteq> set (frontier pat (concat (map (childrenMatching q') nodes)))"
    by (rule frontier_mono_nodes)
  with Cons.IH [of "concat (map (childrenMatching q') nodes)"] show ?case
    by auto
qed

lemma setSubCache_New:
  "setSubCache NewTreeCache n sub (a # P) = TreeCache [(a, setSubCache NewTreeCache n sub P)] []"
  by (simp add: NewTreeCache_def childOrNew_def)

lemma frontier_chain:
  "matches pat P \<Longrightarrow>
     frontier pat [setSubCache NewTreeCache n sub P] = [installed NewTreeCache n sub P]"
  unfolding matches_def
proof (induction pat P rule: list_all2_induct)
  case Nil
  then show ?case by (simp add: installed_def)
next
  case (Cons q pat a P)
  have "childrenMatching q (TreeCache [(a, setSubCache NewTreeCache n sub P)] [])
          = [setSubCache NewTreeCache n sub P]"
    using Cons.hyps(1) by (auto simp: childrenMatching_def)
  with Cons.IH show ?case
    by (simp add: setSubCache_New installed_Cons del: setSubCache.simps)
qed

lemma deletePath_Cons:
  "p \<noteq> [] \<Longrightarrow>
     deletePath c (a # p) =
       (case map_of (ChildNodes c) a of
          None \<Rightarrow> c
        | Some g \<Rightarrow> TreeCache (AList.update a (deletePath g p) (ChildNodes c)) (Entries c))"
  by (cases p) (simp_all split: option.splits)

lemma frontier_setSubCache:
  "matches pat P \<Longrightarrow>
     \<exists>xs ys. frontier pat [setSubCache c n sub P] = xs @ [installed c n sub P] @ ys
            \<and> set xs \<union> set ys \<subseteq> set (frontier pat [deletePath c (P @ [n])])"
  unfolding matches_def
proof (induction pat P arbitrary: c rule: list_all2_induct)
  case Nil
  have "frontier [] [setSubCache c n sub []] = [] @ [installed c n sub []] @ []"
    by (simp add: installed_def)
  then show ?case by (metis Un_empty_left empty_set empty_subsetI)
next
  case (Cons q pat a P)
  let ?X = "setSubCache (childOrNew c a) n sub P"
  let ?g = "installed c n sub (a # P)"
  let ?c' = "setSubCache c n sub (a # P)"
  let ?c0 = "deletePath c ((a # P) @ [n])"
  have g: "?g = installed (childOrNew c a) n sub P"
    by (rule installed_Cons)
  have m: "matches pat P" using Cons.hyps(2) by (simp add: matches_def)
  show ?case
  proof (cases "map_of (ChildNodes c) a")
    case None
    then have new: "childOrNew c a = NewTreeCache" by (simp add: childOrNew_def)
    have c0: "?c0 = c"
      using None by (simp add: deletePath_Cons)
    have fx: "frontier pat [?X] = [?g]"
      unfolding g new using m by (rule frontier_chain)
    have upd: "AList.update a ?X (ChildNodes c) = ChildNodes c @ [(a, ?X)]"
      using None by (intro update_fresh) (simp add: map_of_eq_None_iff)
    show ?thesis
    proof (cases "q = ''*''")
      case True
      have "frontier (q # pat) [?c'] = frontier pat (map snd (ChildNodes c)) @ [?g] @ []"
        using True by (simp add: childrenMatching_def upd frontier_append_nodes fx)
      moreover have "frontier (q # pat) [?c0] = frontier pat (map snd (ChildNodes c))"
        unfolding c0 using True by (simp add: childrenMatching_def)
      ultimately show ?thesis by (metis Un_empty_right empty_set order_refl)
    next
      case False
      with Cons.hyps(1) have "q = a" by simp
      then have "frontier (q # pat) [?c'] = [] @ [?g] @ []"
        using False by (simp add: childrenMatching_def update_conv' fx)
      then show ?thesis by (metis Un_empty_left empty_set empty_subsetI)
    qed
  next
    case (Some old)
    let ?old0 = "deletePath old (P @ [n])"
    from Some have old: "childOrNew c a = old" by (simp add: childOrNew_def)
    have c0: "?c0 = TreeCache (AList.update a ?old0 (ChildNodes c)) (Entries c)"
      using Some by (simp add: deletePath_Cons)
    from Cons.IH [of old] obtain xs ys where
      fx: "frontier pat [?X] = xs @ [?g] @ ys"
      and sub: "set xs \<union> set ys \<subseteq> set (frontier pat [?old0])"
      unfolding g old by blast
    from map_of_split [OF Some] obtain pre post where
      sp: "ChildNodes c = pre @ (a, old) # post" "a \<notin> fst ` set pre"
      by blast
    then have upd: "AList.update a ?X (ChildNodes c) = pre @ (a, ?X) # post"
      and upd0: "AList.update a ?old0 (ChildNodes c) = pre @ (a, ?old0) # post"
      by (simp_all add: update_split)
    show ?thesis
    proof (cases "q = ''*''")
      case True
      have "frontier (q # pat) [?c']
              = (frontier pat (map snd pre) @ xs) @ [?g] @ (ys @ frontier pat (map snd post))"
        using True by (simp add: childrenMatching_def upd frontier_append_nodes fx
            frontier_append_nodes [of pat "[?X]" "map snd post", simplified])
      moreover have "frontier (q # pat) [?c0]
              = frontier pat (map snd pre) @ frontier pat [?old0] @ frontier pat (map snd post)"
        unfolding c0 using True by (simp add: childrenMatching_def upd0 frontier_append_nodes
            frontier_append_nodes [of pat "[?old0]" "map snd post", simplified])
      ultimately show ?thesis using sub
        by (intro exI [of _ "frontier pat (map snd pre) @ xs"]
                  exI [of _ "ys @ frontier pat (map snd post)"]) auto
    next
      case False
      with Cons.hyps(1) have "q = a" by simp
      then have "frontier (q # pat) [?c'] = xs @ [?g] @ ys"
        using False by (simp add: childrenMatching_def update_conv' fx)
      moreover have "frontier (q # pat) [?c0] = frontier pat [?old0]"
        unfolding c0 using False \<open>q = a\<close> by (simp add: childrenMatching_def update_conv')
      ultimately show ?thesis using sub by auto
    qed
  qed
qed

section \<open>The last label\<close>

lemma allEntries_concat:
  "allEntries (concat (map f nodes)) = concat (map (\<lambda>g. allEntries (f g)) nodes)"
  by (induction nodes) simp_all

lemma concat_map_Nil: "(\<forall>x \<in> set xs. f x = []) \<Longrightarrow> concat (map f xs) = []"
  by simp

lemma getValuesFrom_last:
  "l \<noteq> ''*'' \<Longrightarrow>
     getValuesFrom nodes [l]
       = concat (map (lastEntry l) nodes) @ concat (map (\<lambda>g. allEntries (lastChild l g)) nodes)"
  by (simp add: allEntries_concat)

lemma final_empty:
  "l \<noteq> ''*'' \<Longrightarrow> (getValuesFrom nodes [l] = []) = (\<forall>g \<in> set nodes. contrib l g = [])"
  by (auto simp: getValuesFrom_last contrib_def simp del: getValuesFrom.simps)

lemma final_single:
  assumes "l \<noteq> ''*''" and "\<forall>x \<in> set xs \<union> set ys. contrib l x = []"
  shows "getValuesFrom (xs @ [g] @ ys) [l] = contrib l g"
proof -
  from assms(2) have "\<forall>x \<in> set xs. lastEntry l x = []"
    "\<forall>x \<in> set xs. allEntries (lastChild l x) = []"
    "\<forall>x \<in> set ys. lastEntry l x = []"
    "\<forall>x \<in> set ys. allEntries (lastChild l x) = []"
    by (simp_all add: contrib_def)
  then have "concat (map (lastEntry l) xs) = []" "concat (map (lastEntry l) ys) = []"
    "concat (map (\<lambda>g. allEntries (lastChild l g)) xs) = []"
    "concat (map (\<lambda>g. allEntries (lastChild l g)) ys) = []"
    by (simp_all only: concat_map_Nil)
  then show ?thesis
    unfolding getValuesFrom_last [OF assms(1)] contrib_def
    by (simp only: map_append concat_append list.map concat.simps append_Nil append_Nil2)
qed

lemma contrib_installed_entry:
  "contrib n (installed c n sub p) =
     (case getEntry c n p of None \<Rightarrow> map snd (Entries sub) | Some v \<Rightarrow> [v])"
  by (simp add: contrib_def installed_def lastEntry_def lastChild_def Entries_nodeAt update_conv'
        split: option.splits)

lemma getValues_installed_wildcard:
  assumes m: "matches pat P" and le: "list_all2 (\<lambda>q q'. q' = ''*'' \<or> q = q') pat pat'"
    and n: "n \<noteq> ''*''"
    and H: "getValuesForPathWithWildcards (deletePath c (P @ [n])) (pat' @ [n]) = []"
  shows "getValuesForPathWithWildcards (setSubCache c n sub P) (pat @ [n])
           = (case getEntry c n P of None \<Rightarrow> map snd (Entries sub) | Some v \<Rightarrow> [v])"
proof -
  from H n have quiet: "\<forall>g \<in> set (frontier pat' [deletePath c (P @ [n])]). contrib n g = []"
    by (simp add: getValuesForPathWithWildcards_def getValuesFrom_frontier final_empty
          del: getValuesFrom.simps)
  from frontier_setSubCache [OF m] obtain xs ys where
    fr: "frontier pat [setSubCache c n sub P] = xs @ [installed c n sub P] @ ys"
    and sub: "set xs \<union> set ys \<subseteq> set (frontier pat [deletePath c (P @ [n])])"
    by blast
  from frontier_mono_pattern [OF le] sub
  have "set xs \<union> set ys \<subseteq> set (frontier pat' [deletePath c (P @ [n])])"
    by blast
  with quiet have others: "\<forall>x \<in> set xs \<union> set ys. contrib n x = []"
    by blast
  from final_single [OF n others] show ?thesis
    by (simp add: getValuesForPathWithWildcards_def getValuesFrom_frontier fr
          contrib_installed_entry del: getValuesFrom.simps setSubCache.simps)
qed

lemma getValues_below_installed:
  assumes "''*'' \<notin> set (P @ [n])"
  shows "getValuesForPathWithWildcards (setSubCache c n sub P) (P @ [n, ''*''])
           = map snd (Entries sub)"
proof -
  from assms have "frontier (P @ [n]) [setSubCache c n sub P]
      = (case getSubCache (setSubCache c n sub P) (P @ [n]) of None \<Rightarrow> [] | Some g \<Rightarrow> [g])"
    by (rule frontier_literal)
  then have "frontier (P @ [n]) [setSubCache c n sub P] = [sub]"
    by (simp add: getSubCache_setSubCache)
  then have "getValuesFrom [setSubCache c n sub P] ((P @ [n]) @ [''*'']) = map snd (Entries sub)"
    by (simp only: getValuesFrom_frontier) simp
  then show ?thesis by (simp add: getValuesForPathWithWildcards_def)
qed


section \<open>Equivalent queries\<close>

lemma queryPath_3:
  assumes "CHR ''.'' \<notin> set l1" "CHR ''.'' \<notin> set l2" "CHR ''.'' \<notin> set l3"
    and "TrimRight d ''.'' \<noteq> []"
  shows "queryPath (l1 @ ''.'' @ l2 @ ''.'' @ l3 @ ''.'' @ d) = queryPath d @ [l3, l2, l1]"
    and "TrimRight (l1 @ ''.'' @ l2 @ ''.'' @ l3 @ ''.'' @ d) ''.'' \<noteq> []"
proof -
  note a = queryPath_label [OF assms(3) assms(4)]
  note b = queryPath_label [OF assms(2) a(2)]
  note c = queryPath_label [OF assms(1) b(2)]
  from a(1) b(1) c(1) show "queryPath (l1 @ ''.'' @ l2 @ ''.'' @ l3 @ ''.'' @ d)
                              = queryPath d @ [l3, l2, l1]"
    by simp
  from c(2) show "TrimRight (l1 @ ''.'' @ l2 @ ''.'' @ l3 @ ''.'' @ d) ''.'' \<noteq> []" .
qed

lemma queryPath_4:
  assumes "CHR ''.'' \<notin> set l0" "CHR ''.'' \<notin> set l1" "CHR ''.'' \<notin> set l2" "CHR ''.'' \<notin> set l3"
    and "TrimRight d ''.'' \<noteq> []"
  shows "queryPath (l0 @ ''.'' @ l1 @ ''.'' @ l2 @ ''.'' @ l3 @ ''.'' @ d)
           = queryPath d @ [l3, l2, l1, l0]"
proof -
  note a = queryPath_3 [OF assms(2-5)]
  from queryPath_label [OF assms(1) a(2)] a(1) show ?thesis by simp
qed

lemma matches_domain:
  "matches (D @ [x, y]) (D @ [a, b]) = ((x = ''*'' \<or> x = a) \<and> (y = ''*'' \<or> y = b))"
  by (simp add: matches_def list_all2_append list_all2_same)

lemma below_stars:
  "list_all2 (\<lambda>q q'. q' = ''*'' \<or> q = q') (D @ [x, y]) (D @ [''*'', ''*''])"
  by (simp add: list_all2_append list_all2_same)

lemma newPortalService_Records:
  assumes q: "queryPath name = (domainPath kd @ [x, y]) @ [Name s]"
    and x: "x = ''*'' \<or> x = ''svc''" and y: "y = ''*'' \<or> y = Namespace s"
    and n: "Name s \<noteq> ''*''"
    and pre: "getEntry (cache kd) (Name s) (domainPath kd @ [''svc'', Namespace s]) = None
              \<or> getEntry (cache kd) (Name s) (domainPath kd @ [''svc'', Namespace s])
                  = Some (aRecord (ClusterIP s))"
    and H: "getValuesForPathWithWildcards
              (deletePath (cache kd) ((domainPath kd @ [''svc'', Namespace s]) @ [Name s]))
              ((domainPath kd @ [''*'', ''*'']) @ [Name s]) = []"
  shows "Records (newPortalService kd s) name False = Inr [aRecord (ClusterIP s)]"
proof -
  let ?kd' = "newPortalService kd s"
  let ?P = "domainPath kd @ [''svc'', Namespace s]"
  have c: "cache ?kd' = setSubCache (cache kd) (Name s) (portalSubCache kd s) ?P"
    by (simp add: newPortalService_def Let_def serviceSubdomain_def)
  have d: "domainPath ?kd' = domainPath kd"
    by (simp add: newPortalService_def Let_def)
  have m: "matches (domainPath kd @ [x, y]) ?P"
    using x y by (simp add: matches_domain)
  have "getValuesForPathWithWildcards (cache ?kd') (queryPath name)
          = (case getEntry (cache kd) (Name s) ?P of
               None \<Rightarrow> map snd (Entries (portalSubCache kd s)) | Some v \<Rightarrow> [v])"
    unfolding c q
    by (rule getValues_installed_wildcard [OF m below_stars n H])
  with pre have v: "getValuesForPathWithWildcards (cache ?kd') (queryPath name)
                      = [aRecord (ClusterIP s)]"
    by (auto simp: portalSubCache_A)
  have "x \<noteq> ''pod''" using x by auto
  moreover have "queryPath name = domainPath ?kd' @ x # [y, Name s]"
    by (simp add: q d)
  ultimately have "Records ?kd' name False =
           (if getValuesForPathWithWildcards (cache ?kd') (queryPath name) = [] then Inl KeyNotFound
            else Inr (getValuesForPathWithWildcards (cache ?kd') (queryPath name)))"
    by (intro Records_wildcard)
  then show ?thesis unfolding v by simp
qed

lemma newPortalService_Records_below:
  assumes q: "queryPath name = (domainPath kd @ [''svc'', Namespace s]) @ [Name s, ''*'']"
    and n: "''*'' \<notin> set ((domainPath kd @ [''svc'', Namespace s]) @ [Name s])"
  shows "Records (newPortalService kd s) name False = Inr [aRecord (ClusterIP s)]"
proof -
  let ?kd' = "newPortalService kd s"
  let ?P = "domainPath kd @ [''svc'', Namespace s]"
  have c: "cache ?kd' = setSubCache (cache kd) (Name s) (portalSubCache kd s) ?P"
    by (simp add: newPortalService_def Let_def serviceSubdomain_def)
  have d: "domainPath ?kd' = domainPath kd"
    by (simp add: newPortalService_def Let_def)
  have v: "getValuesForPathWithWildcards (cache ?kd') (queryPath name) = [aRecord (ClusterIP s)]"
    unfolding c q using getValues_below_installed [OF n, of "cache kd" "portalSubCache kd s"]
    by (simp add: portalSubCache_A)
  have "queryPath name = domainPath ?kd' @ ''svc'' # [Namespace s, Name s, ''*'']"
    by (simp add: q d)
  moreover have "''svc'' \<noteq> ''pod''" by simp
  ultimately have "Records ?kd' name False =
           (if getValuesForPathWithWildcards (cache ?kd') (queryPath name) = [] then Inl KeyNotFound
            else Inr (getValuesForPathWithWildcards (cache ?kd') (queryPath name)))"
    by (rule Records_wildcard)
  then show ?thesis unfolding v by simp
qed


section \<open>Pod queries\<close>

text \<open>
  C5 (amended). For every query name whose reversed path P has exactly len(D)+3 labels,
  with P[len(D)] equal to "pod" and no label equal to "*", and for either value of exact:
  if the last label with dashes replaced by dots is accepted by net.ParseIP (an IPv4 or an
  IPv6 address), Records returns exactly one record with that string as host and port 0;
  otherwise Records fails with the invalid-IP error.
\<close>

theorem Records_pod_record:
  assumes "length (queryPath name) = length (domainPath kd) + 3"
    and "queryPath name ! length (domainPath kd) = ''pod''"
    and "''*'' \<notin> set (queryPath name)"
  shows "Records kd name exact =
           (if ParseIP (dashesToDots (last (queryPath name)))
            then Inr [\<lparr>Host = dashesToDots (last (queryPath name)), Port = 0,
                       Priority = 10, Weight = 10, Ttl = 30\<rparr>]
            else Inl (InvalidIP (dashesToDots (last (queryPath name)))))"
proof -
  from assms have "isPodRecord kd (queryPath name)"
    by (simp add: isPodRecord_pod_shape)
  then show ?thesis by (rule Records_pod_shape)
qed

theorem Records_pod_record_witness:
  "length (queryPath ''1-2-3-4.default.pod.cluster.local.'') = length (domainPath clusterLocal) + 3
   \<and> queryPath ''1-2-3-4.default.pod.cluster.local.'' ! length (domainPath clusterLocal) = ''pod''
   \<and> ''*'' \<notin> set (queryPath ''1-2-3-4.default.pod.cluster.local.'')
   \<and> Records clusterLocal ''1-2-3-4.default.pod.cluster.local.'' False
       = Inr [\<lparr>Host = ''1.2.3.4'', Port = 0, Priority = 10, Weight = 10, Ttl = 30\<rparr>]
   \<and> length (queryPath ''1-2-3.default.pod.cluster.local.'') = length (domainPath clusterLocal) + 3
   \<and> queryPath ''1-2-3.default.pod.cluster.local.'' ! length (domainPath clusterLocal) = ''pod''
   \<and> ''*'' \<notin> set (queryPath ''1-2-3.default.pod.cluster.local.'')
   \<and> Records clusterLocal ''1-2-3.default.pod.cluster.local.'' True = Inl (InvalidIP ''1.2.3'')"
proof -
  have q: "queryPath ''1-2-3-4.default.pod.cluster.local.''
             = [''local'', ''cluster'', ''pod'', ''default'', ''1-2-3-4'']"
    by (simp add: queryPath_def TrimRight_def reverseArray_def)
  have q': "queryPath ''1-2-3.default.pod.cluster.local.''
             = [''local'', ''cluster'', ''pod'', ''default'', ''1-2-3'']"
    by (simp add: queryPath_def TrimRight_def reverseArray_def)
  have p: "length (queryPath ''1-2-3-4.default.pod.cluster.local.'') = length (domainPath clusterLocal) + 3"
    "queryPath ''1-2-3-4.default.pod.cluster.local.'' ! length (domainPath clusterLocal) = ''pod''"
    "''*'' \<notin> set (queryPath ''1-2-3-4.default.pod.cluster.local.'')"
    by (simp_all add: q domainPath_clusterLocal)
  have p': "length (queryPath ''1-2-3.default.pod.cluster.local.'') = length (domainPath clusterLocal) + 3"
    "queryPath ''1-2-3.default.pod.cluster.local.'' ! length (domainPath clusterLocal) = ''pod''"
    "''*'' \<notin> set (queryPath ''1-2-3.default.pod.cluster.local.'')"
    by (simp_all add: q' domainPath_clusterLocal)
  have d: "dashesToDots (last (queryPath ''1-2-3-4.default.pod.cluster.local.'')) = ''1.2.3.4''"
    "dashesToDots (last (queryPath ''1-2-3.default.pod.cluster.local.'')) = ''1.2.3''"
    by (simp_all add: q q' dashesToDots_def ReplaceByte_def)
  have ip: "ParseIP ''1.2.3.4''" "\<not> ParseIP ''1.2.3''"
    by (simp_all add: ParseIP_eval)
  have r: "Records clusterLocal ''1-2-3-4.default.pod.cluster.local.'' False
       = Inr [\<lparr>Host = ''1.2.3.4'', Port = 0, Priority = 10, Weight = 10, Ttl = 30\<rparr>]"
    using Records_pod_record [OF p, of False] ip by (simp add: d)
  have r': "Records clusterLocal ''1-2-3.default.pod.cluster.local.'' True = Inl (InvalidIP ''1.2.3'')"
    using Records_pod_record [OF p', of True] ip by (simp add: d)
  from p p' r r' show ?thesis by blast
qed

text \<open>
  The claim as stated fails on an IPv6 literal: the last label "::1" is not an IPv4 address,
  and Records answers with a record instead of the invalid-IP error.
\<close>

theorem Records_pod_IPv6_counterexample:
  "length (queryPath ''::1.default.pod.cluster.local.'') = length (domainPath clusterLocal) + 3
   \<and> queryPath ''::1.default.pod.cluster.local.'' ! length (domainPath clusterLocal) = ''pod''
   \<and> ''*'' \<notin> set (queryPath ''::1.default.pod.cluster.local.'')
   \<and> \<not> parseIPv4 (dashesToDots (last (queryPath ''::1.default.pod.cluster.local.'')))
   \<and> Records clusterLocal ''::1.default.pod.cluster.local.'' False
       = Inr [\<lparr>Host = ''::1'', Port = 0, Priority = 10, Weight = 10, Ttl = 30\<rparr>]"
proof -
  have q: "queryPath ''::1.default.pod.cluster.local.''
             = [''local'', ''cluster'', ''pod'', ''default'', ''::1'']"
    by (simp add: queryPath_def TrimRight_def reverseArray_def)
  have p: "isPodRecord clusterLocal (queryPath ''::1.default.pod.cluster.local.'')"
    by (simp add: q domainPath_clusterLocal isPodRecord_def)
  have d: "dashesToDots (last (queryPath ''::1.default.pod.cluster.local.'')) = ''::1''"
    by (simp add: q dashesToDots_def ReplaceByte_def)
  have ip: "ParseIP ''::1''" "\<not> parseIPv4 ''::1''"
    by (simp_all add: ParseIP_eval)
  have r: "Records clusterLocal ''::1.default.pod.cluster.local.'' False
       = Inr [\<lparr>Host = ''::1'', Port = 0, Priority = 10, Weight = 10, Ttl = 30\<rparr>]"
    using Records_pod_shape [OF p, of False] ip by (simp add: d)
  show ?thesis using r ip by (simp add: d) (simp add: q domainPath_clusterLocal)
qed

text \<open>
  C9. For every query name of pod shape (len(D)+3 labels, "pod" at position len(D) of the
  reversed path, no "*" label) and either value of exact, the result of Records is the
  same for any two cache states; in particular a name whose final label is not accepted
  as an IP address yields the invalid-IP error whatever the cache holds, also when a
  record is stored at that very path.
\<close>

theorem Records_pod_ignores_cache:
  assumes "length (queryPath name) = length (domainPath kd) + 3"
    and "queryPath name ! length (domainPath kd) = ''pod''"
    and "''*'' \<notin> set (queryPath name)"
  shows "Records (kd\<lparr>cache := c1\<rparr>) name exact = Records (kd\<lparr>cache := c2\<rparr>) name exact
       \<and> (\<not> ParseIP (dashesToDots (last (queryPath name))) \<longrightarrow>
            Records (kd\<lparr>cache := c1\<rparr>) name exact
              = Inl (InvalidIP (dashesToDots (last (queryPath name)))))"
proof -
  from assms have "isPodRecord kd (queryPath name)"
    by (simp add: isPodRecord_pod_shape)
  then have "isPodRecord (kd\<lparr>cache := c\<rparr>) (queryPath name)" for c
    by simp
  then show ?thesis by (simp add: Records_pod_shape)
qed

theorem Records_pod_ignores_cache_witness:
  "length (queryPath ''x-y.default.pod.cluster.local.'') = length (domainPath clusterLocal) + 3
   \<and> queryPath ''x-y.default.pod.cluster.local.'' ! length (domainPath clusterLocal) = ''pod''
   \<and> ''*'' \<notin> set (queryPath ''x-y.default.pod.cluster.local.'')
   \<and> getEntry podPathRecord ''x-y'' [''local'', ''cluster'', ''pod'', ''default''] = Some oldRecord
   \<and> Records (clusterLocal\<lparr>cache := podPathRecord\<rparr>) ''x-y.default.pod.cluster.local.'' True
       = Records (clusterLocal\<lparr>cache := NewTreeCache\<rparr>) ''x-y.default.pod.cluster.local.'' True
   \<and> Records (clusterLocal\<lparr>cache := podPathRecord\<rparr>) ''x-y.default.pod.cluster.local.'' True
       = Inl (InvalidIP ''x.y'')"
proof -
  have q: "queryPath ''x-y.default.pod.cluster.local.''
             = [''local'', ''cluster'', ''pod'', ''default'', ''x-y'']"
    by (simp add: queryPath_def TrimRight_def reverseArray_def)
  have p: "length (queryPath ''x-y.default.pod.cluster.local.'') = length (domainPath clusterLocal) + 3"
    "queryPath ''x-y.default.pod.cluster.local.'' ! length (domainPath clusterLocal) = ''pod''"
    "''*'' \<notin> set (queryPath ''x-y.default.pod.cluster.local.'')"
    by (simp_all add: q domainPath_clusterLocal)
  have d: "dashesToDots (last (queryPath ''x-y.default.pod.cluster.local.'')) = ''x.y''"
    by (simp add: q dashesToDots_def ReplaceByte_def)
  have ip: "\<not> ParseIP ''x.y''"
    by (simp add: ParseIP_eval)
  have g: "getEntry podPathRecord ''x-y'' [''local'', ''cluster'', ''pod'', ''default''] = Some oldRecord"
    by (simp add: podPathRecord_def cache_eval)
  have "Records (clusterLocal\<lparr>cache := podPathRecord\<rparr>) ''x-y.default.pod.cluster.local.'' True
       = Records (clusterLocal\<lparr>cache := NewTreeCache\<rparr>) ''x-y.default.pod.cluster.local.'' True
     \<and> (\<not> ParseIP ''x.y'' \<longrightarrow>
          Records (clusterLocal\<lparr>cache := podPathRecord\<rparr>) ''x-y.default.pod.cluster.local.'' True
            = Inl (InvalidIP ''x.y''))"
    using Records_pod_ignores_cache [OF p, of podPathRecord True NewTreeCache] unfolding d .
  with p g ip show ?thesis by blast
qed


section \<open>Queries that are not pod queries\<close>

text \<open>
  C6. For every query name that is not pod-shaped: in exact mode, Records returns the empty
  list without error if the final path label is empty; otherwise it returns the entry
  that getEntry finds for the final label under the remaining prefix as a one-element
  list, and fails with the not-found error if getEntry misses. In wildcard mode, Records
  fails with the not-found error exactly when the wildcard traversal collects no record,
  and otherwise returns all collected records.
\<close>

theorem Records_not_pod:
  assumes "\<not> isPodRecord kd (queryPath name)"
  shows "Records kd name True =
           (if last (queryPath name) = [] then Inr []
            else (case getEntry (cache kd) (last (queryPath name)) (butlast (queryPath name)) of
                    Some record \<Rightarrow> Inr [record]
                  | None \<Rightarrow> Inl KeyNotFound))
       \<and> ((Records kd name False = Inl KeyNotFound)
            = (getValuesForPathWithWildcards (cache kd) (queryPath name) = []))
       \<and> (getValuesForPathWithWildcards (cache kd) (queryPath name) \<noteq> [] \<longrightarrow>
            Records kd name False = Inr (getValuesForPathWithWildcards (cache kd) (queryPath name)))"
  using assms by (simp add: Records_unfold)

theorem Records_not_pod_witness:
  "\<not> isPodRecord withOldRecord (queryPath ''old.testservice.default.svc.cluster.local.'')
   \<and> Records withOldRecord ''old.testservice.default.svc.cluster.local.'' True = Inr [oldRecord]
   \<and> Records withOldRecord ''old.testservice.default.svc.cluster.local.'' False = Inr [oldRecord]"
proof -
  have q: "queryPath ''old.testservice.default.svc.cluster.local.''
             = [''local'', ''cluster'', ''svc'', ''default'', ''testservice'', ''old'']"
    by (simp add: queryPath_def TrimRight_def reverseArray_def)
  have dp: "domainPath withOldRecord = [''local'', ''cluster'']"
    by (simp add: withOldRecord_def domainPath_clusterLocal)
  have p: "\<not> isPodRecord withOldRecord (queryPath ''old.testservice.default.svc.cluster.local.'')"
    by (simp add: q dp isPodRecord_def)
  have c: "cache withOldRecord = setEntry NewTreeCache ''old'' oldRecord
             [''local'', ''cluster'', ''svc'', ''default'', ''testservice'']"
    by (simp add: withOldRecord_def servicePath_clusterLocal)
  have g: "getEntry (cache withOldRecord) ''old''
             [''local'', ''cluster'', ''svc'', ''default'', ''testservice''] = Some oldRecord"
    unfolding c by (simp add: cache_eval)
  have v: "getValuesForPathWithWildcards (cache withOldRecord)
             [''local'', ''cluster'', ''svc'', ''default'', ''testservice'', ''old''] = [oldRecord]"
    unfolding c by (simp add: cache_eval)
  from Records_not_pod [OF p] g v
  have "Records withOldRecord ''old.testservice.default.svc.cluster.local.'' True = Inr [oldRecord]"
    "Records withOldRecord ''old.testservice.default.svc.cluster.local.'' False = Inr [oldRecord]"
    by (simp_all add: q)
  with p show ?thesis by blast
qed


section \<open>Malformed pod-hostnames annotation\<close>

text \<open>
  C7 (amended). For every headless service whose endpoints object carries a non-empty
  pod-hostnames annotation that the JSON decoder rejects, synthesis returns an error and
  the state, hence the cache and the subtree of the service, is left unchanged.
\<close>

theorem generateRecords_malformed_annotation:
  assumes "Annotations e PodHostnamesAnnotation = Some s" and "s \<noteq> []" and "unm s = None"
  shows "generateRecordsForHeadlessService unm kd e svc = (kd, Some UnmarshalError)"
  using assms
  by (simp add: generateRecordsForHeadlessService_def getPodHostnamesFromAnnotation_def)

theorem generateRecords_malformed_annotation_witness:
  "Annotations brokenAnnotation PodHostnamesAnnotation = Some ''{'' \<and> ''{'' \<noteq> [] \<and> noJSON ''{'' = None
   \<and> generateRecordsForHeadlessService noJSON withOldRecord brokenAnnotation testHeadless
       = (withOldRecord, Some UnmarshalError)"
proof -
  have a: "Annotations brokenAnnotation PodHostnamesAnnotation = Some ''{''"
    by (simp add: brokenAnnotation_def)
  have n: "''{'' \<noteq> []" by simp
  have u: "noJSON ''{'' = None" by (simp add: noJSON_def)
  from generateRecords_malformed_annotation
         [of brokenAnnotation "''{''" noJSON withOldRecord testHeadless, OF a n u] a u
  show ?thesis by simp
qed

text \<open>
  The claim as stated fails on the empty annotation: the empty string is not valid JSON,
  but getPodHostnamesFromAnnotation only decodes a non-empty value. Synthesis succeeds and
  replaces the subtree of the service; the record "old" is gone.
\<close>

theorem generateRecords_empty_annotation_counterexample:
  "Annotations emptyAnnotation PodHostnamesAnnotation = Some []
   \<and> noJSON [] = None
   \<and> snd (generateRecordsForHeadlessService noJSON withOldRecord emptyAnnotation testHeadless) = None
   \<and> getEntry (cache withOldRecord) ''old'' (servicePath withOldRecord ''default'' ''testservice'')
       = Some oldRecord
   \<and> getEntry (cache (fst (generateRecordsForHeadlessService noJSON withOldRecord emptyAnnotation
                              testHeadless)))
         ''old'' (servicePath withOldRecord ''default'' ''testservice'') = None"
proof -
  have a: "Annotations emptyAnnotation PodHostnamesAnnotation = Some []"
    by (simp add: emptyAnnotation_def)
  have dp: "domainPath withOldRecord = [''local'', ''cluster'']"
    by (simp add: withOldRecord_def domainPath_clusterLocal)
  have sp: "servicePath withOldRecord ''default'' ''testservice''
              = [''local'', ''cluster'', ''svc'', ''default'', ''testservice'']"
    by (simp add: servicePath_def dp serviceSubdomain_def)
  have c: "cache withOldRecord = setEntry NewTreeCache ''old'' oldRecord
             [''local'', ''cluster'', ''svc'', ''default'', ''testservice'']"
    by (simp add: withOldRecord_def servicePath_clusterLocal)
  have g: "getEntry (cache withOldRecord) ''old''
             [''local'', ''cluster'', ''svc'', ''default'', ''testservice''] = Some oldRecord"
    unfolding c by (simp add: cache_eval)
  have r: "generateRecordsForHeadlessService noJSON withOldRecord emptyAnnotation testHeadless
             = (withOldRecord\<lparr>cache := setSubCache (cache withOldRecord) ''testservice'' NewTreeCache
                                  [''local'', ''cluster'', ''svc'', ''default'']\<rparr>, None)"
    by (simp add: generateRecordsForHeadlessService_def getPodHostnamesFromAnnotation_def a
          headlessSubCache_def emptyAnnotation_def testHeadless_def dp serviceSubdomain_def)
  have g': "getEntry (setSubCache (cache withOldRecord) ''testservice'' NewTreeCache
                        [''local'', ''cluster'', ''svc'', ''default''])
              ''old'' [''local'', ''cluster'', ''svc'', ''default'', ''testservice''] = None"
    unfolding c by (simp add: cache_eval)
  have e: "getEntry (cache (fst (generateRecordsForHeadlessService noJSON withOldRecord
             emptyAnnotation testHeadless)))
             ''old'' (servicePath withOldRecord ''default'' ''testservice'') = None"
    unfolding r sp using g' by (simp del: setSubCache.simps)
  show ?thesis using e by (simp add: a noJSON_def r sp g del: setSubCache.simps)
qed


section \<open>Idempotence of service events\<close>

text \<open>
  C8. For every service add event (portal, or headless with or without known endpoints)
  and every starting state, applying the event twice yields exactly the same state, hence
  the same cache contents, as applying it once: each add installs a wholesale-built
  subcache at D ++ ["svc", ns] under key n, replacing whatever was there.
\<close>

theorem newService_idempotent:
  "newService unm (newService unm kd s) s = newService unm kd s"
  by (simp add: newService_def newHeadlessService_def newPortalService_idem generateRecords_idem
        split: option.splits)


section \<open>Frame of the reconciler events\<close>

text \<open>
  C10. For every reconciler event concerning a service with namespace ns and name n
  (newService, updateService, removeService, and handleEndpointAdd for endpoints that the
  services store maps to that service), every cache entry whose path does not lie under
  D ++ ["svc", ns, n] is unchanged by the event. An entry is addressed by the path of its
  node followed by its key. Endpoints that belong to no known service change nothing.
\<close>

theorem events_frame:
  assumes "\<not> prefix (servicePath kd (Namespace s) (Name s)) (path @ [k])"
  shows "getEntry (cache (newService unm kd s)) k path = getEntry (cache kd) k path
       \<and> getEntry (cache (updateService unm kd old s)) k path = getEntry (cache kd) k path
       \<and> getEntry (cache (removeService kd s)) k path = getEntry (cache kd) k path
       \<and> (getServiceFromEndpoints kd e = Some s \<longrightarrow>
            getEntry (cache (handleEndpointAdd unm kd e)) k path = getEntry (cache kd) k path)
       \<and> (getServiceFromEndpoints kd e = None \<longrightarrow> handleEndpointAdd unm kd e = kd)"
proof -
  have "getEntry (cache (removeService kd s)) k path = getEntry (cache kd) k path"
    using assms by (simp add: removeService_def servicePath_def getEntry_deletePath_frame)
  moreover have "getServiceFromEndpoints kd e = Some s \<longrightarrow>
            getEntry (cache (handleEndpointAdd unm kd e)) k path = getEntry (cache kd) k path"
    using generateRecords_frame [OF assms]
    by (simp add: handleEndpointAdd_def addDNSUsingEndpoints_def)
  moreover have "getServiceFromEndpoints kd e = None \<longrightarrow> handleEndpointAdd unm kd e = kd"
    by (simp add: handleEndpointAdd_def addDNSUsingEndpoints_def)
  ultimately show ?thesis
    using newService_frame [OF assms] by (simp add: updateService_def)
qed

theorem events_frame_witness:
  "\<not> prefix (servicePath withOther (Namespace otherHeadless) (Name otherHeadless))
       ([''local'', ''cluster'', ''svc'', ''default'', ''testservice''] @ [''old''])
   \<and> getServiceFromEndpoints withOther otherEndpoints = Some otherHeadless
   \<and> getEntry (cache withOther) ''old''
        [''local'', ''cluster'', ''svc'', ''default'', ''testservice''] = Some oldRecord
   \<and> getEntry (cache (newService noJSON withOther otherHeadless)) ''old''
        [''local'', ''cluster'', ''svc'', ''default'', ''testservice''] = Some oldRecord
   \<and> getEntry (cache (updateService noJSON withOther testHeadless otherHeadless)) ''old''
        [''local'', ''cluster'', ''svc'', ''default'', ''testservice''] = Some oldRecord
   \<and> getEntry (cache (removeService withOther otherHeadless)) ''old''
        [''local'', ''cluster'', ''svc'', ''default'', ''testservice''] = Some oldRecord
   \<and> getEntry (cache (handleEndpointAdd noJSON withOther otherEndpoints)) ''old''
        [''local'', ''cluster'', ''svc'', ''default'', ''testservice''] = Some oldRecord"
proof -
  have dp: "domainPath withOther = [''local'', ''cluster'']"
    by (simp add: withOther_def withOldRecord_def domainPath_clusterLocal)
  have p: "\<not> prefix (servicePath withOther (Namespace otherHeadless) (Name otherHeadless))
       ([''local'', ''cluster'', ''svc'', ''default'', ''testservice''] @ [''old''])"
    by (simp add: servicePath_def dp serviceSubdomain_def otherHeadless_def)
  have s: "getServiceFromEndpoints withOther otherEndpoints = Some otherHeadless"
    by (simp add: getServiceFromEndpoints_def withOther_def MetaNamespaceKeyFunc_def
          otherEndpoints_def)
  have c: "cache withOther = setEntry NewTreeCache ''old'' oldRecord
             [''local'', ''cluster'', ''svc'', ''default'', ''testservice'']"
    by (simp add: withOther_def withOldRecord_def servicePath_clusterLocal)
  have g: "getEntry (cache withOther) ''old''
             [''local'', ''cluster'', ''svc'', ''default'', ''testservice''] = Some oldRecord"
    unfolding c by (simp add: cache_eval)
  from events_frame [OF p, of noJSON testHeadless otherEndpoints] p s g
  show ?thesis by simp
qed


section \<open>Records of a portal service\<close>

text \<open>
  C2 (amended). For every portal service with name n, namespace ns and cluster IP v,
  synthesis places exactly one A-entry with value {host: v, port: 0} in the entries map
  of a fresh subcache node, under the key that getSkyMsg returns for that record (the
  hexadecimal rendering of its FNV-1a hash), not under the key n. For each port p with
  non-empty name and non-empty protocol the node at path ["\_" ++ lower(proto),
  "\_" ++ p.name] of the same subcache holds exactly one SRV-entry, under that same key,
  with host "n.ns.svc.<domain>" and port p.port, provided the named ports that share a
  name and a lower-cased protocol agree on the port number. The subcache is installed at
  D ++ ["svc", ns] under key n.
\<close>

theorem newPortalService_records:
  assumes "IsServiceIPSet s"
    and "\<forall>p \<in> set (Ports s). \<forall>p' \<in> set (Ports s).
           namedPort p \<and> namedPort p' \<and> sp_Name p' = sp_Name p
             \<and> ToLower (sp_Protocol p') = ToLower (sp_Protocol p) \<longrightarrow> sp_Port p' = sp_Port p"
  shows "getSubCache (cache (newService unm kd s)) (servicePath kd (Namespace s) (Name s))
           = Some (portalSubCache kd s)
       \<and> Entries (portalSubCache kd s)
           = [(hashLabel (ClusterIP s),
               \<lparr>Host = ClusterIP s, Port = 0, Priority = 10, Weight = 10, Ttl = 30\<rparr>)]
       \<and> (\<forall>p \<in> set (Ports s). sp_Name p \<noteq> [] \<and> sp_Protocol p \<noteq> [] \<longrightarrow>
             entriesAt (portalSubCache kd s) [''_'' @ ToLower (sp_Protocol p), ''_'' @ sp_Name p]
               = [(hashLabel (ClusterIP s),
                   \<lparr>Host = Name s @ ''.'' @ Namespace s @ ''.svc.'' @ domain kd, Port = sp_Port p,
                    Priority = 10, Weight = 10, Ttl = 30\<rparr>)])"
proof -
  have "entriesAt (portalSubCache kd s) [''_'' @ ToLower (sp_Protocol p), ''_'' @ sp_Name p]
               = [(hashLabel (ClusterIP s),
                   \<lparr>Host = Name s @ ''.'' @ Namespace s @ ''.svc.'' @ domain kd, Port = sp_Port p,
                    Priority = 10, Weight = 10, Ttl = 30\<rparr>)]"
    if p: "p \<in> set (Ports s)" "sp_Name p \<noteq> [] \<and> sp_Protocol p \<noteq> []" for p
  proof -
    from p have n: "namedPort p" by (simp add: namedPort_def)
    have "\<forall>p' \<in> set (Ports s). namedPort p' \<and> srvPath (sp_Protocol p') (sp_Name p')
             = srvPath (sp_Protocol p) (sp_Name p) \<longrightarrow> sp_Port p' = sp_Port p"
    proof (intro ballI impI)
      fix p' assume p': "p' \<in> set (Ports s)"
        and "namedPort p' \<and> srvPath (sp_Protocol p') (sp_Name p')
               = srvPath (sp_Protocol p) (sp_Name p)"
      then have "namedPort p \<and> namedPort p' \<and> sp_Name p' = sp_Name p
             \<and> ToLower (sp_Protocol p') = ToLower (sp_Protocol p)"
        using n by (simp add: srvPath_def)
      with assms(2) p(1) p' show "sp_Port p' = sp_Port p" by blast
    qed
    from portalSubCache_SRV [OF p(1) n this, of kd] show ?thesis
      by (simp add: srvPath_def serviceFQDN_def serviceSubdomain_def)
  qed
  with assms(1) show ?thesis
    by (simp add: newService_def newPortalService_installed portalSubCache_A aRecord_def)
qed



theorem newPortalService_records_witness:
  "IsServiceIPSet testPortal
   \<and> Ports testPortal = [\<lparr>sp_Name = ''http1'', sp_Protocol = ''TCP'', sp_Port = 80\<rparr>]
   \<and> hashLabel (ClusterIP testPortal) = ''6263626163303737''
   \<and> getSubCache (cache (newService noJSON clusterLocal testPortal))
        [''local'', ''cluster'', ''svc'', ''default'', ''testservice'']
       = Some (portalSubCache clusterLocal testPortal)
   \<and> Entries (portalSubCache clusterLocal testPortal)
       = [(''6263626163303737'',
           \<lparr>Host = ''1.2.3.4'', Port = 0, Priority = 10, Weight = 10, Ttl = 30\<rparr>)]
   \<and> entriesAt (portalSubCache clusterLocal testPortal) [''_tcp'', ''_http1'']
       = [(''6263626163303737'',
           \<lparr>Host = ''testservice.default.svc.cluster.local.'', Port = 80,
            Priority = 10, Weight = 10, Ttl = 30\<rparr>)]"
proof -
  let ?p = "\<lparr>sp_Name = ''http1'', sp_Protocol = ''TCP'', sp_Port = 80\<rparr>"
  have h1: "IsServiceIPSet testPortal"
    by (simp add: IsServiceIPSet_def testPortal_def)
  have ps: "Ports testPortal = [?p]"
    by (simp add: testPortal_def)
  have h2: "\<forall>p \<in> set (Ports testPortal). \<forall>p' \<in> set (Ports testPortal).
           namedPort p \<and> namedPort p' \<and> sp_Name p' = sp_Name p
             \<and> ToLower (sp_Protocol p') = ToLower (sp_Protocol p) \<longrightarrow> sp_Port p' = sp_Port p"
    by (simp add: ps)
  have l: "hashLabel (ClusterIP testPortal) = ''6263626163303737''"
    by (simp add: testPortal_def hashLabel_1_2_3_4)
  have sp: "servicePath clusterLocal (Namespace testPortal) (Name testPortal)
              = [''local'', ''cluster'', ''svc'', ''default'', ''testservice'']"
    by (simp add: servicePath_clusterLocal testPortal_def)
  have lo: "ToLower ''TCP'' = ''tcp''"
    by (simp add: ToLower_def char_of_eq_iff)
  have dm: "domain clusterLocal = ''cluster.local.''"
    by (simp add: clusterLocal_def NewKubeDNS_def)
  note t = newPortalService_records [OF h1 h2, of noJSON clusterLocal, unfolded sp l]
  from t have t1: "getSubCache (cache (newService noJSON clusterLocal testPortal))
        [''local'', ''cluster'', ''svc'', ''default'', ''testservice'']
       = Some (portalSubCache clusterLocal testPortal)"
    by blast
  from t have t2: "Entries (portalSubCache clusterLocal testPortal)
       = [(''6263626163303737'',
           \<lparr>Host = ClusterIP testPortal, Port = 0, Priority = 10, Weight = 10, Ttl = 30\<rparr>)]"
    by blast
  from t have "sp_Name ?p \<noteq> [] \<and> sp_Protocol ?p \<noteq> [] \<longrightarrow>
       entriesAt (portalSubCache clusterLocal testPortal)
         [''_'' @ ToLower (sp_Protocol ?p), ''_'' @ sp_Name ?p]
       = [(''6263626163303737'',
           \<lparr>Host = Name testPortal @ ''.'' @ Namespace testPortal @ ''.svc.'' @ domain clusterLocal,
            Port = sp_Port ?p, Priority = 10, Weight = 10, Ttl = 30\<rparr>)]"
    unfolding ps by simp
  then have t3: "entriesAt (portalSubCache clusterLocal testPortal) [''_tcp'', ''_http1'']
       = [(''6263626163303737'',
           \<lparr>Host = ''testservice.default.svc.cluster.local.'', Port = 80,
            Priority = 10, Weight = 10, Ttl = 30\<rparr>)]"
    by (simp add: lo dm testPortal_def)
  from t2 have t2': "Entries (portalSubCache clusterLocal testPortal)
       = [(''6263626163303737'',
           \<lparr>Host = ''1.2.3.4'', Port = 0, Priority = 10, Weight = 10, Ttl = 30\<rparr>)]"
    by (simp add: testPortal_def)
  from h1 ps l t1 t2' t3 show ?thesis by blast
qed

text \<open>
  The claim as stated fails: for the portal service of the tests, neither the entries of
  the subcache nor those of its SRV node have the key "testservice".
\<close>

theorem portal_key_counterexample:
  "IsServiceIPSet testPortal
   \<and> Name testPortal = ''testservice''
   \<and> map_of (Entries (portalSubCache clusterLocal testPortal)) ''testservice'' = None
   \<and> map_of (entriesAt (portalSubCache clusterLocal testPortal) [''_tcp'', ''_http1''])
        ''testservice'' = None"
proof -
  have h1: "IsServiceIPSet testPortal"
    by (simp add: IsServiceIPSet_def testPortal_def)
  have l: "hashLabel (ClusterIP testPortal) = ''6263626163303737''"
    by (simp add: testPortal_def hashLabel_1_2_3_4)
  have e: "Entries (portalSubCache clusterLocal testPortal)
             = [(''6263626163303737'', aRecord (ClusterIP testPortal))]"
    by (simp add: portalSubCache_A l)
  have p: "\<lparr>sp_Name = ''http1'', sp_Protocol = ''TCP'', sp_Port = 80\<rparr> \<in> set (Ports testPortal)"
    "namedPort \<lparr>sp_Name = ''http1'', sp_Protocol = ''TCP'', sp_Port = 80\<rparr>"
    by (simp_all add: testPortal_def namedPort_def)
  have q: "srvPath ''TCP'' ''http1'' = [''_tcp'', ''_http1'']"
    by (simp add: srvPath_def ToLower_def char_of_eq_iff)
  have "entriesAt (portalSubCache clusterLocal testPortal) (srvPath ''TCP'' ''http1'')
          = [(''6263626163303737'',
              \<lparr>Host = serviceFQDN clusterLocal (Namespace testPortal) (Name testPortal),
               Port = 80, Priority = 10, Weight = 10, Ttl = 30\<rparr>)]"
  proof -
    have ps: "Ports testPortal = [\<lparr>sp_Name = ''http1'', sp_Protocol = ''TCP'', sp_Port = 80\<rparr>]"
      by (simp add: testPortal_def)
    have h: "\<forall>p' \<in> set (Ports testPortal).
               namedPort p' \<and> srvPath (sp_Protocol p') (sp_Name p')
                 = srvPath (sp_Protocol \<lparr>sp_Name = ''http1'', sp_Protocol = ''TCP'', sp_Port = 80\<rparr>)
                     (sp_Name \<lparr>sp_Name = ''http1'', sp_Protocol = ''TCP'', sp_Port = 80\<rparr>)
               \<longrightarrow> sp_Port p' = sp_Port \<lparr>sp_Name = ''http1'', sp_Protocol = ''TCP'', sp_Port = 80\<rparr>"
      by (simp add: ps)
    from portalSubCache_SRV [OF p h, of clusterLocal] show ?thesis
      by (simp add: l)
  qed
  then have s: "map_of (entriesAt (portalSubCache clusterLocal testPortal) [''_tcp'', ''_http1''])
        ''testservice'' = None"
    by (simp add: q)
  from e have a: "map_of (Entries (portalSubCache clusterLocal testPortal)) ''testservice'' = None"
    by simp
  have n: "Name testPortal = ''testservice''"
    by (simp add: testPortal_def)
  from h1 n a s show ?thesis by blast
qed


section \<open>Records of a headless service\<close>

text \<open>
  C1 (amended). For every headless service with namespace ns and name n whose synthesis
  succeeds, and for every endpoint address a of its endpoints object that carries no
  explicit hostname and no valid annotation-provided hostname, the A-entry for a is
  stored under the label that getSkyMsg returns for the record (the hexadecimal rendering
  of its FNV-1a hash), not under the dash-encoded IP: the record {host: a.IP, port: 0} is
  reachable at path D ++ ["svc", ns, n, hashLabel(a.IP)], provided no address of the
  endpoints object with another IP gets the same label.
\<close>

theorem headless_record_label:
  assumes "getPodHostnamesFromAnnotation unm (Annotations e) = Inr ph"
    and "a \<in> set (allAddresses e)"
    and "getHostname a ph = None"
    and "\<forall>a' \<in> set (allAddresses e). endpointName ph a' = hashLabel (IP a) \<longrightarrow> IP a' = IP a"
  shows "getEntry (cache (fst (generateRecordsForHeadlessService unm kd e svc)))
           (hashLabel (IP a)) (domainPath kd @ [''svc'', Namespace svc, Name svc])
         = Some \<lparr>Host = IP a, Port = 0, Priority = 10, Weight = 10, Ttl = 30\<rparr>"
proof -
  have l: "endpointName ph a = hashLabel (IP a)"
    using assms(3) by (simp add: endpointName_def hashLabel_def)
  have "\<forall>a' \<in> set (allAddresses e). endpointName ph a' = endpointName ph a
           \<longrightarrow> aRecord (IP a') = aRecord (IP a)"
  proof (intro ballI impI)
    fix a' assume "a' \<in> set (allAddresses e)" and "endpointName ph a' = endpointName ph a"
    with assms(4) l have "IP a' = IP a" by metis
    then show "aRecord (IP a') = aRecord (IP a)" by simp
  qed
  with assms(2)
  have "map_of (foldl (\<lambda>al x. AList.update (endpointName ph x) (aRecord (IP x)) al) []
                  (allAddresses e)) (endpointName ph a) = Some (aRecord (IP a))"
    by (rule map_of_foldl_update)
  then have "map_of (Entries (headlessSubCache kd svc ph e)) (hashLabel (IP a))
               = Some (aRecord (IP a))"
    by (simp add: headlessSubCache_Entries l)
  then show ?thesis
    by (simp add: generateRecords_ok [OF assms(1)] getEntry_installed serviceSubdomain_def
          aRecord_def)
qed



theorem headless_record_label_witness:
  "getPodHostnamesFromAnnotation noJSON (Annotations otherEndpoints) = Inr noHostnames
   \<and> allAddresses otherEndpoints = [\<lparr>IP = ''10.0.0.1'', Hostname = []\<rparr>]
   \<and> getHostname \<lparr>IP = ''10.0.0.1'', Hostname = []\<rparr> noHostnames = None
   \<and> hashLabel ''10.0.0.1'' = ''3234633364383235''
   \<and> getEntry (cache (fst (generateRecordsForHeadlessService noJSON clusterLocal otherEndpoints
                               otherHeadless)))
         ''3234633364383235'' [''local'', ''cluster'', ''svc'', ''default'', ''other'']
       = Some \<lparr>Host = ''10.0.0.1'', Port = 0, Priority = 10, Weight = 10, Ttl = 30\<rparr>"
proof -
  let ?a = "\<lparr>IP = ''10.0.0.1'', Hostname = []\<rparr>"
  have h1: "getPodHostnamesFromAnnotation noJSON (Annotations otherEndpoints) = Inr noHostnames"
    by (simp add: getPodHostnamesFromAnnotation_def otherEndpoints_def noHostnames_def)
  have aa: "allAddresses otherEndpoints = [?a]"
    by (simp add: allAddresses_def otherEndpoints_def)
  have h2: "?a \<in> set (allAddresses otherEndpoints)"
    by (simp add: aa)
  have h3: "getHostname ?a noHostnames = None"
    by (simp add: getHostname_def noHostnames_def)
  have h4: "\<forall>a' \<in> set (allAddresses otherEndpoints).
              endpointName noHostnames a' = hashLabel (IP ?a) \<longrightarrow> IP a' = IP ?a"
    by (simp add: aa)
  from headless_record_label [OF h1 h2 h3 h4, of clusterLocal otherHeadless]
  have "getEntry (cache (fst (generateRecordsForHeadlessService noJSON clusterLocal otherEndpoints
                               otherHeadless)))
         ''3234633364383235'' [''local'', ''cluster'', ''svc'', ''default'', ''other'']
       = Some \<lparr>Host = ''10.0.0.1'', Port = 0, Priority = 10, Weight = 10, Ttl = 30\<rparr>"
    by (simp add: hashLabel_10_0_0_1 domainPath_clusterLocal otherHeadless_def)
  with h1 aa h3 hashLabel_10_0_0_1 show ?thesis by blast
qed

text \<open>
  The claim as stated fails: for the address 10.0.0.1 nothing is stored under the label
  10-0-0-1.
\<close>

theorem headless_dash_label_counterexample:
  "allAddresses otherEndpoints = [\<lparr>IP = ''10.0.0.1'', Hostname = []\<rparr>]
   \<and> getHostname \<lparr>IP = ''10.0.0.1'', Hostname = []\<rparr> noHostnames = None
   \<and> dashEncode ''10.0.0.1'' = ''10-0-0-1''
   \<and> snd (generateRecordsForHeadlessService noJSON clusterLocal otherEndpoints otherHeadless) = None
   \<and> getEntry (cache (fst (generateRecordsForHeadlessService noJSON clusterLocal otherEndpoints
                               otherHeadless)))
         (dashEncode ''10.0.0.1'') [''local'', ''cluster'', ''svc'', ''default'', ''other'']
       = None"
proof -
  let ?a = "\<lparr>IP = ''10.0.0.1'', Hostname = []\<rparr>"
  have h1: "getPodHostnamesFromAnnotation noJSON (Annotations otherEndpoints) = Inr noHostnames"
    by (simp add: getPodHostnamesFromAnnotation_def otherEndpoints_def noHostnames_def)
  have aa: "allAddresses otherEndpoints = [?a]"
    by (simp add: allAddresses_def otherEndpoints_def)
  have h3: "getHostname ?a noHostnames = None"
    by (simp add: getHostname_def noHostnames_def)
  have d: "dashEncode ''10.0.0.1'' = ''10-0-0-1''"
    by (simp add: dashEncode_def ReplaceByte_def)
  have en: "endpointName noHostnames ?a = ''3234633364383235''"
    using h3 hashLabel_10_0_0_1 by (simp add: endpointName_def hashLabel_def)
  have nm: "Name otherHeadless = ''other''" "Namespace otherHeadless = ''default''"
    by (simp_all add: otherHeadless_def)
  have es: "Entries (headlessSubCache clusterLocal otherHeadless noHostnames otherEndpoints)
              = [(''3234633364383235'', aRecord ''10.0.0.1'')]"
    by (simp add: headlessSubCache_Entries aa en)
  have g: "getEntry (cache (fst (generateRecordsForHeadlessService noJSON clusterLocal
                                   otherEndpoints otherHeadless)))
             ''10-0-0-1'' [''local'', ''cluster'', ''svc'', ''default'', ''other''] = None"
    using getEntry_installed [of "cache clusterLocal" "''other''"
            "headlessSubCache clusterLocal otherHeadless noHostnames otherEndpoints"
            "[''local'', ''cluster'']" "''svc''" "''default''" "''10-0-0-1''"]
    by (simp add: generateRecords_ok [OF h1] es domainPath_clusterLocal serviceSubdomain_def
          nm del: setSubCache.simps)
  have r: "snd (generateRecordsForHeadlessService noJSON clusterLocal otherEndpoints otherHeadless)
             = None"
    by (simp add: generateRecords_ok [OF h1])
  from aa h3 d r g show ?thesis by simp
qed


section \<open>Answers for a headless service\<close>

text \<open>
  C3 (amended). For every headless service s whose endpoints object E has been reconciled
  into the cache, Records(FQDN(s), exact=false) returns exactly |addresses(E)| records
  whose hosts are exactly the endpoint IPs of E (the hosts are the IPs themselves, no
  CNAME is involved), provided that the labels of the addresses of E are pairwise distinct
  (in particular no IP occurs twice), that E has at least one address, that the name and
  the namespace of s are labels without dot other than "*", that the domain path is the
  reversed domain without "*", and that the namespace node holds no entry under the
  service's own name. Addresses that share a label share one record, and with no address
  the query fails with the not-found error.
\<close>

theorem headless_records:
  assumes "getPodHostnamesFromAnnotation unm (Annotations e) = Inr ph"
    and "distinct (map (endpointName ph) (allAddresses e))"
    and "allAddresses e \<noteq> []"
    and "domainPath kd = queryPath (domain kd)" and "TrimRight (domain kd) ''.'' \<noteq> []"
    and "plainLabel (Namespace svc)" and "plainLabel (Name svc)"
    and "''*'' \<notin> set (domainPath kd)"
    and "getEntry (cache kd) (Name svc) (domainPath kd @ [''svc'', Namespace svc]) = None"
  shows "\<exists>recs. Records (fst (generateRecordsForHeadlessService unm kd e svc))
                  (serviceFQDN kd (Namespace svc) (Name svc)) False = Inr recs
               \<and> length recs = length (allAddresses e)
               \<and> set (map Host recs) = set (map IP (allAddresses e))"
proof -
  let ?recs = "map (\<lambda>a. aRecord (IP a)) (allAddresses e)"
  have m: "map snd (Entries (headlessSubCache kd svc ph e)) = ?recs"
    using assms(2) by (rule headlessSubCache_distinct)
  with assms(3) have n: "Entries (headlessSubCache kd svc ph e) \<noteq> []"
    by auto
  have "Records (fst (generateRecordsForHeadlessService unm kd e svc))
          (serviceFQDN kd (Namespace svc) (Name svc)) False = Inr ?recs"
    using generateRecords_Records [OF assms(1) assms(4-9)] n m by simp
  moreover have "length ?recs = length (allAddresses e)" by simp
  moreover have "set (map Host ?recs) = set (map IP (allAddresses e))"
    by (simp add: aRecord_def comp_def)
  ultimately show ?thesis by blast
qed



theorem headless_records_witness:
  "getPodHostnamesFromAnnotation noJSON (Annotations twoAddresses) = Inr noHostnames
   \<and> distinct (map (endpointName noHostnames) (allAddresses twoAddresses))
   \<and> allAddresses twoAddresses \<noteq> []
   \<and> domainPath clusterLocal = queryPath (domain clusterLocal)
   \<and> TrimRight (domain clusterLocal) ''.'' \<noteq> []
   \<and> plainLabel (Namespace otherHeadless) \<and> plainLabel (Name otherHeadless)
   \<and> ''*'' \<notin> set (domainPath clusterLocal)
   \<and> getEntry (cache clusterLocal) (Name otherHeadless)
        (domainPath clusterLocal @ [''svc'', Namespace otherHeadless]) = None
   \<and> serviceFQDN clusterLocal (Namespace otherHeadless) (Name otherHeadless)
        = ''other.default.svc.cluster.local.''
   \<and> (\<exists>recs. Records (fst (generateRecordsForHeadlessService noJSON clusterLocal twoAddresses
                                otherHeadless))
                 ''other.default.svc.cluster.local.'' False = Inr recs
          \<and> length recs = 2 \<and> set (map Host recs) = {''10.0.0.1'', ''1.2.3.4''})"
proof -
  have aa: "allAddresses twoAddresses
              = [\<lparr>IP = ''10.0.0.1'', Hostname = []\<rparr>, \<lparr>IP = ''1.2.3.4'', Hostname = []\<rparr>]"
    by (simp add: allAddresses_def twoAddresses_def)
  have h1: "getPodHostnamesFromAnnotation noJSON (Annotations twoAddresses) = Inr noHostnames"
    by (rule no_annotation) (simp add: twoAddresses_def)
  have h2: "distinct (map (endpointName noHostnames) (allAddresses twoAddresses))"
    by (simp add: aa endpointName_plain hashLabel_10_0_0_1 hashLabel_1_2_3_4)
  have h3: "allAddresses twoAddresses \<noteq> []"
    by (simp add: aa)
  have h6: "plainLabel (Namespace otherHeadless)" and h7: "plainLabel (Name otherHeadless)"
    by (simp_all add: plainLabel_def otherHeadless_def)
  have h9: "getEntry (cache clusterLocal) (Name otherHeadless)
        (domainPath clusterLocal @ [''svc'', Namespace otherHeadless]) = None"
    by (simp add: cache_clusterLocal)
  have f: "serviceFQDN clusterLocal (Namespace otherHeadless) (Name otherHeadless)
        = ''other.default.svc.cluster.local.''"
    by (simp add: serviceFQDN_def clusterLocal_wellformed(1) otherHeadless_def serviceSubdomain_def)
  from headless_records [OF h1 h2 h3 clusterLocal_wellformed(2,3) h6 h7
         clusterLocal_wellformed(4) h9]
  have "\<exists>recs. Records (fst (generateRecordsForHeadlessService noJSON clusterLocal twoAddresses
                                otherHeadless))
                 ''other.default.svc.cluster.local.'' False = Inr recs
          \<and> length recs = 2 \<and> set (map Host recs) = {''10.0.0.1'', ''1.2.3.4''}"
    unfolding f by (simp add: aa numeral_2_eq_2)
  with h1 h2 h3 clusterLocal_wellformed(2,3,4) h6 h7 h9 f show ?thesis by blast
qed

text \<open>
  The claim as stated fails when an IP occurs in two subsets: two addresses, one record.
\<close>

theorem headless_same_IP_counterexample:
  "length (allAddresses sameIP) = 2
   \<and> Records (fst (generateRecordsForHeadlessService noJSON clusterLocal sameIP otherHeadless))
        ''other.default.svc.cluster.local.'' False
       = Inr [\<lparr>Host = ''10.0.0.1'', Port = 0, Priority = 10, Weight = 10, Ttl = 30\<rparr>]"
proof -
  have aa: "allAddresses sameIP
              = [\<lparr>IP = ''10.0.0.1'', Hostname = []\<rparr>, \<lparr>IP = ''10.0.0.1'', Hostname = []\<rparr>]"
    by (simp add: allAddresses_def sameIP_def)
  have h1: "getPodHostnamesFromAnnotation noJSON (Annotations sameIP) = Inr noHostnames"
    by (rule no_annotation) (simp add: sameIP_def)
  have h6: "plainLabel (Namespace otherHeadless)" and h7: "plainLabel (Name otherHeadless)"
    by (simp_all add: plainLabel_def otherHeadless_def)
  have h9: "getEntry (cache clusterLocal) (Name otherHeadless)
        (domainPath clusterLocal @ [''svc'', Namespace otherHeadless]) = None"
    by (simp add: cache_clusterLocal)
  have f: "serviceFQDN clusterLocal (Namespace otherHeadless) (Name otherHeadless)
        = ''other.default.svc.cluster.local.''"
    by (simp add: serviceFQDN_def clusterLocal_wellformed(1) otherHeadless_def serviceSubdomain_def)
  have e: "Entries (headlessSubCache clusterLocal otherHeadless noHostnames sameIP)
             = [(hashLabel ''10.0.0.1'', aRecord ''10.0.0.1'')]"
    by (simp add: headlessSubCache_Entries aa endpointName_plain)
  from generateRecords_Records [OF h1 clusterLocal_wellformed(2,3) h6 h7
         clusterLocal_wellformed(4) h9]
  have "Records (fst (generateRecordsForHeadlessService noJSON clusterLocal sameIP otherHeadless))
        ''other.default.svc.cluster.local.'' False = Inr [aRecord ''10.0.0.1'']"
    unfolding f by (simp add: e)
  then show ?thesis by (simp add: aa aRecord_def)
qed


section \<open>Equivalent queries for a portal service\<close>

text \<open>
  C4 (amended). For every added portal service n in namespace ns, whether it is new, added
  again or updated, the five query strings n.ns.svc.<domain>, n.*.svc.<domain>,
  n.ns.*.<domain>, n.*.*.<domain> and *.n.ns.svc.<domain> all make
  Records(query, exact=false) return the same single-record set, one record whose host is
  the cluster IP, provided that no record is visible under the name n outside the
  service's own subtree: with that subtree removed (removeService), the widest of these
  queries, n.*.*.<domain>, finds no record, and the namespace node holds no entry under
  the key n other than the service's own A-record. Here n and ns are labels without dot
  other than "*", and the domain path is the reversed domain without "*".
\<close>

theorem portal_equivalent_queries:
  assumes "IsServiceIPSet s"
    and "domainPath kd = queryPath (domain kd)" and "TrimRight (domain kd) ''.'' \<noteq> []"
    and "plainLabel (Namespace s)" and "plainLabel (Name s)"
    and "''*'' \<notin> set (domainPath kd)"
    and "getEntry (cache kd) (Name s) (domainPath kd @ [''svc'', Namespace s]) = None
         \<or> getEntry (cache kd) (Name s) (domainPath kd @ [''svc'', Namespace s])
             = Some \<lparr>Host = ClusterIP s, Port = 0, Priority = 10, Weight = 10, Ttl = 30\<rparr>"
    and "getValuesForPathWithWildcards (cache (removeService kd s))
           (domainPath kd @ [''*'', ''*'', Name s]) = []"
  shows "Records (newService unm kd s) (Name s @ ''.'' @ Namespace s @ ''.svc.'' @ domain kd) False
           = Inr [\<lparr>Host = ClusterIP s, Port = 0, Priority = 10, Weight = 10, Ttl = 30\<rparr>]
       \<and> Records (newService unm kd s) (Name s @ ''.*.svc.'' @ domain kd) False
           = Inr [\<lparr>Host = ClusterIP s, Port = 0, Priority = 10, Weight = 10, Ttl = 30\<rparr>]
       \<and> Records (newService unm kd s) (Name s @ ''.'' @ Namespace s @ ''.*.'' @ domain kd) False
           = Inr [\<lparr>Host = ClusterIP s, Port = 0, Priority = 10, Weight = 10, Ttl = 30\<rparr>]
       \<and> Records (newService unm kd s) (Name s @ ''.*.*.'' @ domain kd) False
           = Inr [\<lparr>Host = ClusterIP s, Port = 0, Priority = 10, Weight = 10, Ttl = 30\<rparr>]
       \<and> Records (newService unm kd s)
           (''*.'' @ Name s @ ''.'' @ Namespace s @ ''.svc.'' @ domain kd) False
           = Inr [\<lparr>Host = ClusterIP s, Port = 0, Priority = 10, Weight = 10, Ttl = 30\<rparr>]"
proof -
  let ?D = "domainPath kd" and ?n = "Name s" and ?ns = "Namespace s" and ?d = "domain kd"
  from assms(4,5) have dots: "CHR ''.'' \<notin> set ?ns" "CHR ''.'' \<notin> set ?n"
    and stars: "?ns \<noteq> ''*''" "?n \<noteq> ''*''"
    by (simp_all add: plainLabel_def)
  have lit: "CHR ''.'' \<notin> set ''svc''" "CHR ''.'' \<notin> set ''*''" by simp_all
  have ns: "newService unm kd s = newPortalService kd s"
    using assms(1) by (simp add: newService_def)
  have pre: "getEntry (cache kd) ?n (?D @ [''svc'', ?ns]) = None
              \<or> getEntry (cache kd) ?n (?D @ [''svc'', ?ns]) = Some (aRecord (ClusterIP s))"
    using assms(7) by (simp add: aRecord_def)
  have H: "getValuesForPathWithWildcards
             (deletePath (cache kd) ((?D @ [''svc'', ?ns]) @ [?n]))
             ((?D @ [''*'', ''*'']) @ [?n]) = []"
    using assms(8) by (simp add: removeService_def serviceSubdomain_def)
  have q1: "queryPath (?n @ ''.'' @ ?ns @ ''.svc.'' @ ?d) = (?D @ [''svc'', ?ns]) @ [?n]"
    using queryPath_3 (1) [OF dots(2) dots(1) lit(1) assms(3)] assms(2) by simp
  have q2: "queryPath (?n @ ''.*.svc.'' @ ?d) = (?D @ [''svc'', ''*'']) @ [?n]"
    using queryPath_3 (1) [OF dots(2) lit(2) lit(1) assms(3)] assms(2) by simp
  have q3: "queryPath (?n @ ''.'' @ ?ns @ ''.*.'' @ ?d) = (?D @ [''*'', ?ns]) @ [?n]"
    using queryPath_3 (1) [OF dots(2) dots(1) lit(2) assms(3)] assms(2) by simp
  have q4: "queryPath (?n @ ''.*.*.'' @ ?d) = (?D @ [''*'', ''*'']) @ [?n]"
    using queryPath_3 (1) [OF dots(2) lit(2) lit(2) assms(3)] assms(2) by simp
  have q5: "queryPath (''*.'' @ ?n @ ''.'' @ ?ns @ ''.svc.'' @ ?d)
              = (?D @ [''svc'', ?ns]) @ [?n, ''*'']"
    using queryPath_4 [OF lit(2) dots(2) dots(1) lit(1) assms(3)] assms(2) by simp
  have s5: "''*'' \<notin> set ((?D @ [''svc'', ?ns]) @ [?n])"
    using assms(6) stars by auto
  have r1: "Records (newPortalService kd s) (?n @ ''.'' @ ?ns @ ''.svc.'' @ ?d) False
              = Inr [aRecord (ClusterIP s)]"
    by (rule newPortalService_Records [OF q1 _ _ stars(2) pre H]) simp_all
  have r2: "Records (newPortalService kd s) (?n @ ''.*.svc.'' @ ?d) False
              = Inr [aRecord (ClusterIP s)]"
    by (rule newPortalService_Records [OF q2 _ _ stars(2) pre H]) simp_all
  have r3: "Records (newPortalService kd s) (?n @ ''.'' @ ?ns @ ''.*.'' @ ?d) False
              = Inr [aRecord (ClusterIP s)]"
    by (rule newPortalService_Records [OF q3 _ _ stars(2) pre H]) simp_all
  have r4: "Records (newPortalService kd s) (?n @ ''.*.*.'' @ ?d) False
              = Inr [aRecord (ClusterIP s)]"
    by (rule newPortalService_Records [OF q4 _ _ stars(2) pre H]) simp_all
  have r5: "Records (newPortalService kd s) (''*.'' @ ?n @ ''.'' @ ?ns @ ''.svc.'' @ ?d) False
              = Inr [aRecord (ClusterIP s)]"
    by (rule newPortalService_Records_below [OF q5 s5])
  from r1 r2 r3 r4 r5 show ?thesis
    unfolding ns aRecord_def by blast
qed

text \<open>
  The witness is the update of TestNamedSinglePortService: testPortal is in the cache and
  is replaced by renamedPortal, the same service with its port renamed.
\<close>

theorem portal_equivalent_queries_witness:
  "IsServiceIPSet renamedPortal
   \<and> domainPath afterAdd = queryPath (domain afterAdd)
   \<and> TrimRight (domain afterAdd) ''.'' \<noteq> []
   \<and> plainLabel (Namespace renamedPortal) \<and> plainLabel (Name renamedPortal)
   \<and> ''*'' \<notin> set (domainPath afterAdd)
   \<and> getEntry (cache afterAdd) (Name renamedPortal)
        (domainPath afterAdd @ [''svc'', Namespace renamedPortal]) = None
   \<and> getValuesForPathWithWildcards (cache afterAdd)
        (domainPath afterAdd @ [''*'', ''*'', Name renamedPortal])
       = [\<lparr>Host = ''1.2.3.4'', Port = 0, Priority = 10, Weight = 10, Ttl = 30\<rparr>]
   \<and> getValuesForPathWithWildcards (cache (removeService afterAdd renamedPortal))
        (domainPath afterAdd @ [''*'', ''*'', Name renamedPortal]) = []
   \<and> Records (updateService noJSON afterAdd testPortal renamedPortal)
        ''testservice.default.svc.cluster.local.'' False
       = Inr [\<lparr>Host = ''1.2.3.4'', Port = 0, Priority = 10, Weight = 10, Ttl = 30\<rparr>]
   \<and> Records (updateService noJSON afterAdd testPortal renamedPortal)
        ''testservice.*.svc.cluster.local.'' False
       = Inr [\<lparr>Host = ''1.2.3.4'', Port = 0, Priority = 10, Weight = 10, Ttl = 30\<rparr>]
   \<and> Records (updateService noJSON afterAdd testPortal renamedPortal)
        ''testservice.default.*.cluster.local.'' False
       = Inr [\<lparr>Host = ''1.2.3.4'', Port = 0, Priority = 10, Weight = 10, Ttl = 30\<rparr>]
   \<and> Records (updateService noJSON afterAdd testPortal renamedPortal)
        ''testservice.*.*.cluster.local.'' False
       = Inr [\<lparr>Host = ''1.2.3.4'', Port = 0, Priority = 10, Weight = 10, Ttl = 30\<rparr>]
   \<and> Records (updateService noJSON afterAdd testPortal renamedPortal)
        ''*.testservice.default.svc.cluster.local.'' False
       = Inr [\<lparr>Host = ''1.2.3.4'', Port = 0, Priority = 10, Weight = 10, Ttl = 30\<rparr>]"
proof -
  have ip: "IsServiceIPSet testPortal"
    by (simp add: IsServiceIPSet_def testPortal_def)
  have h1: "IsServiceIPSet renamedPortal"
    by (simp add: IsServiceIPSet_def renamedPortal_def)
  have dm: "domain afterAdd = ''cluster.local.''"
    and dp: "domainPath afterAdd = [''local'', ''cluster'']"
    using ip
    by (simp_all add: afterAdd_def newService_def newPortalService_def Let_def
          clusterLocal_wellformed(1) domainPath_clusterLocal)
  have h2: "domainPath afterAdd = queryPath (domain afterAdd)"
    and h3: "TrimRight (domain afterAdd) ''.'' \<noteq> []"
    and h6: "''*'' \<notin> set (domainPath afterAdd)"
    by (simp_all add: dm dp queryPath_def TrimRight_def reverseArray_def)
  have h4: "plainLabel (Namespace renamedPortal)" and h5: "plainLabel (Name renamedPortal)"
    by (simp_all add: plainLabel_def renamedPortal_def)
  have v: "Name renamedPortal = ''testservice''" "Namespace renamedPortal = ''default''"
    "ClusterIP renamedPortal = ''1.2.3.4''"
    by (simp_all add: renamedPortal_def)
  have c: "cache afterAdd
             = setSubCache NewTreeCache ''testservice'' (portalSubCache clusterLocal testPortal)
                 [''local'', ''cluster'', ''svc'', ''default'']"
    using ip
    by (simp add: afterAdd_def newService_def newPortalService_def Let_def
          domainPath_clusterLocal cache_clusterLocal serviceSubdomain_def testPortal_def
          del: setSubCache.simps)
  have e: "map snd (Entries (portalSubCache clusterLocal testPortal)) = [aRecord ''1.2.3.4'']"
    by (simp add: portalSubCache_A testPortal_def)
  have h7: "getEntry (cache afterAdd) (Name renamedPortal)
              (domainPath afterAdd @ [''svc'', Namespace renamedPortal]) = None"
    unfolding c v dp by (simp add: cache_eval)
  have before: "getValuesForPathWithWildcards (cache afterAdd)
                  (domainPath afterAdd @ [''*'', ''*'', Name renamedPortal])
                 = [\<lparr>Host = ''1.2.3.4'', Port = 0, Priority = 10, Weight = 10, Ttl = 30\<rparr>]"
    unfolding c v dp by (simp add: cache_eval e aRecord_def)
  have rc: "cache (removeService afterAdd renamedPortal)
              = deletePath (cache afterAdd)
                  [''local'', ''cluster'', ''svc'', ''default'', ''testservice'']"
    by (simp add: removeService_def dp v serviceSubdomain_def)
  have h8: "getValuesForPathWithWildcards (cache (removeService afterAdd renamedPortal))
              (domainPath afterAdd @ [''*'', ''*'', Name renamedPortal]) = []"
    unfolding rc c v dp by (simp add: cache_eval)
  note t = portal_equivalent_queries [OF h1 h2 h3 h4 h5 h6 disjI1 [OF h7] h8, of noJSON,
             unfolded v dm, simplified]
  from h1 h2 h3 h4 h5 h6 h7 before h8 t show ?thesis
    by (simp add: updateService_def)
qed

text \<open>
  The claim as stated fails when a service of the same name exists in another namespace:
  after adding testservice in "default" and then in "kube", the exact name of the second
  service yields one record and the namespace wildcard yields two.
\<close>

theorem portal_namespace_wildcard_counterexample:
  "IsServiceIPSet kubePortal
   \<and> twoNamespaces = newService noJSON (newService noJSON clusterLocal testPortal) kubePortal
   \<and> Records twoNamespaces ''testservice.kube.svc.cluster.local.'' False
       = Inr [\<lparr>Host = ''5.6.7.8'', Port = 0, Priority = 10, Weight = 10, Ttl = 30\<rparr>]
   \<and> Records twoNamespaces ''testservice.*.svc.cluster.local.'' False
       = Inr [\<lparr>Host = ''1.2.3.4'', Port = 0, Priority = 10, Weight = 10, Ttl = 30\<rparr>,
              \<lparr>Host = ''5.6.7.8'', Port = 0, Priority = 10, Weight = 10, Ttl = 30\<rparr>]"
proof -
  have h1: "IsServiceIPSet kubePortal" "IsServiceIPSet testPortal"
    by (simp_all add: IsServiceIPSet_def kubePortal_def testPortal_def)
  have c: "cache twoNamespaces
             = setSubCache
                 (setSubCache NewTreeCache ''testservice'' (portalSubCache clusterLocal testPortal)
                    [''local'', ''cluster'', ''svc'', ''default''])
                 ''testservice'' (portalSubCache clusterLocal kubePortal)
                 [''local'', ''cluster'', ''svc'', ''kube'']"
    using h1
    by (simp add: twoNamespaces_def newService_def newPortalService_def Let_def
          domainPath_clusterLocal cache_clusterLocal serviceSubdomain_def testPortal_def
          kubePortal_def del: setSubCache.simps)
  have d: "domainPath twoNamespaces = [''local'', ''cluster'']"
    using h1
    by (simp add: twoNamespaces_def newService_def newPortalService_def Let_def
          domainPath_clusterLocal)
  have q1: "queryPath ''testservice.kube.svc.cluster.local.''
              = [''local'', ''cluster'', ''svc'', ''kube'', ''testservice'']"
    and q2: "queryPath ''testservice.*.svc.cluster.local.''
              = [''local'', ''cluster'', ''svc'', ''*'', ''testservice'']"
    by (simp_all add: queryPath_def TrimRight_def reverseArray_def)
  have e: "map snd (Entries (portalSubCache clusterLocal testPortal)) = [aRecord ''1.2.3.4'']"
    "map snd (Entries (portalSubCache clusterLocal kubePortal)) = [aRecord ''5.6.7.8'']"
    by (simp_all add: portalSubCache_A testPortal_def kubePortal_def)
  have v1: "getValuesForPathWithWildcards (cache twoNamespaces)
              [''local'', ''cluster'', ''svc'', ''kube'', ''testservice''] = [aRecord ''5.6.7.8'']"
    unfolding c by (simp add: cache_eval e)
  have v2: "getValuesForPathWithWildcards (cache twoNamespaces)
              [''local'', ''cluster'', ''svc'', ''*'', ''testservice'']
              = [aRecord ''1.2.3.4'', aRecord ''5.6.7.8'']"
    unfolding c by (simp add: cache_eval e)
  have p1: "\<not> isPodRecord twoNamespaces (queryPath ''testservice.kube.svc.cluster.local.'')"
    and p2: "\<not> isPodRecord twoNamespaces (queryPath ''testservice.*.svc.cluster.local.'')"
    by (simp_all add: q1 q2 d isPodRecord_def)
  have r1: "Records twoNamespaces ''testservice.kube.svc.cluster.local.'' False
              = Inr [aRecord ''5.6.7.8'']"
    using p1 by (simp add: Records_unfold q1 v1)
  have r2: "Records twoNamespaces ''testservice.*.svc.cluster.local.'' False
              = Inr [aRecord ''1.2.3.4'', aRecord ''5.6.7.8'']"
    using p2 by (simp add: Records_unfold q2 v2)
  from h1(1) r1 r2 show ?thesis
    by (simp add: aRecord_def twoNamespaces_def)
qed


end
